theory Spec2Isabelle
  imports Complex_Main "HOL-Library.AList" "HOL-Library.Word"
begin

section \<open>JavaScript values used by the program\<close>

text \<open>
  A JavaScript \<open>Map\<close> keeps its entries in insertion order: \<open>set\<close> on a key that is
  present replaces the value in place, \<open>set\<close> on a new key appends, \<open>delete\<close> removes the
  key. It is modelled as an association list with \<open>AList.update\<close> for \<open>set\<close>,
  \<open>AList.delete\<close> for \<open>delete\<close>, \<open>map_of\<close> for \<open>get\<close>, \<open>map snd\<close> for \<open>values()\<close> and
  \<open>length\<close> for \<open>size\<close>.
\<close>

type_synonym ('k, 'v) js_map = "('k \<times> 'v) list"

text \<open>
  A value that \<open>JSON.parse\<close> can give to a property. \<open>JNum x\<close> is the number with the
  value \<open>x\<close> (a literal out of range parses to \<open>Infinity\<close>, which behaves here like any
  other non-zero number). \<open>JObject i\<close> is an array or an object, whatever its content;
  \<open>i\<close> names the object itself, because a \<open>Map\<close> compares such keys by identity, and two
  parsed bodies never share an object.
\<close>

datatype jsval = JNull | JBool bool | JNum rat | JStr string | JObject nat

text \<open>
  \<open>!x\<close> for a property read from a parsed body, \<open>None\<close> being \<open>undefined\<close>: true for
  \<open>undefined\<close>, \<open>null\<close>, \<open>false\<close>, \<open>0\<close> and the empty string; every other number and
  string, \<open>true\<close>, and every array and object are truthy.
\<close>

fun js_falsy :: "jsval option \<Rightarrow> bool" where
  "js_falsy None = True"
| "js_falsy (Some JNull) = True"
| "js_falsy (Some (JBool b)) = (\<not> b)"
| "js_falsy (Some (JNum x)) = (x = 0)"
| "js_falsy (Some (JStr s)) = (s = [])"
| "js_falsy (Some (JObject i)) = False"

text \<open>
  \<open>!x\<close> for a value that is a string, \<open>null\<close> or \<open>undefined\<close> (the component's own
  state and arguments): true for \<open>null\<close>, \<open>undefined\<close> and the empty string.
\<close>

definition falsy :: "string option \<Rightarrow> bool" where
  "falsy x = (case x of None \<Rightarrow> True | Some s \<Rightarrow> s = [])"

section \<open>The discovery registry: \<open>app/api/rooms/[roomId]/peers/route.ts\<close>\<close>

text \<open>
  \<open>{peerId, name}\<close>. In the room component both are strings (\<open>string RoomUser\<close>). The
  registry stores what the request body held: the cast of \<open>req.json()\<close> to
  \<open>{peerId?: string; name?: string}\<close> checks nothing, so both may be any JSON value
  (\<open>jsval RoomUser\<close>).
\<close>

record 'a RoomUser =
  peerId :: 'a
  name :: 'a

text \<open>\<open>PeerEntry = {peerId, name, updatedAt}\<close>: a \<open>RoomUser\<close> with a timestamp (milliseconds).\<close>

record PeerEntry = "jsval RoomUser" +
  updatedAt :: int

text \<open>The registry: room id (a string of the URL) to a \<open>Map\<close> from \<open>peerId\<close> to entry.\<close>

type_synonym Registry = "(string, (jsval, PeerEntry) js_map) js_map"

text \<open>
  What \<open>await req.json()\<close> and the destructuring \<open>const { peerId, name } = ...\<close> give.
  \<open>Rejects\<close>: the body is not JSON and \<open>req.json()\<close> rejects. \<open>JsonNull\<close>: the body is the
  JSON value \<open>null\<close>, and destructuring \<open>null\<close> throws a \<open>TypeError\<close>. \<open>JsonValue b\<close>: the
  body is any other JSON value and \<open>b\<close> holds its properties \<open>peerId\<close> and \<open>name\<close>, \<open>None\<close>
  for a property that reads \<open>undefined\<close> (it is absent; numbers, strings, booleans and
  arrays have neither property). \<open>DELETE\<close> reads \<open>peerId\<close> only.
\<close>

record ReqBody =
  body_peerId :: "jsval option"
  body_name :: "jsval option"

datatype req_json = Rejects | JsonNull | JsonValue ReqBody

datatype payload = Peers "PeerEntry list" | Error string

datatype response = NextResponse_json (json: payload) (status: nat)

text \<open>
  \<open>pruneRoom\<close>: \<open>Date.now()\<close> is read once and passed in as \<open>now\<close>. The \<open>forEach\<close> visits
  the entries of the room and deletes the key of each entry with
  \<open>now - entry.updatedAt > 1000 * 60 * 60\<close>; the inner map is mutated in place, so the
  registry sees the pruned map, and a room left empty is removed.
\<close>

definition stale :: "int \<Rightarrow> PeerEntry \<Rightarrow> bool" where
  "stale now entry = (now - updatedAt entry > 1000 * 60 * 60)"

fun forEach_prune ::
  "int \<Rightarrow> (jsval, PeerEntry) js_map \<Rightarrow> (jsval, PeerEntry) js_map \<Rightarrow> (jsval, PeerEntry) js_map" where
  "forEach_prune now [] roomPeers = roomPeers"
| "forEach_prune now ((key, entry) # rest) roomPeers =
     forEach_prune now rest (if stale now entry then AList.delete key roomPeers else roomPeers)"

definition pruneRoom :: "int \<Rightarrow> string \<Rightarrow> Registry \<Rightarrow> Registry" where
  "pruneRoom now roomId registry =
     (case map_of registry roomId of
        None \<Rightarrow> registry
      | Some roomPeers \<Rightarrow>
          (let roomPeers' = forEach_prune now roomPeers roomPeers
           in if length roomPeers' = 0 then AList.delete roomId registry
              else AList.update roomId roomPeers' registry))"

text \<open>\<open>Array.from(registry.get(roomId)?.values() ?? [])\<close>\<close>

definition peers_of :: "Registry \<Rightarrow> string \<Rightarrow> PeerEntry list" where
  "peers_of registry roomId =
     (case map_of registry roomId of None \<Rightarrow> [] | Some roomPeers \<Rightarrow> map snd roomPeers)"

text \<open>\<open>registry.get(roomId) ?? new Map<string, PeerEntry>()\<close>\<close>

definition room_of :: "Registry \<Rightarrow> string \<Rightarrow> (jsval, PeerEntry) js_map" where
  "room_of registry roomId = (case map_of registry roomId of None \<Rightarrow> [] | Some roomPeers \<Rightarrow> roomPeers)"

text \<open>
  Each handler returns its response and the registry it leaves. When \<open>req.json()\<close>
  rejects or the destructuring throws, the handler throws before it touches the
  registry and returns no response of its own (\<open>None\<close>).
\<close>

definition GET :: "int \<Rightarrow> string \<Rightarrow> Registry \<Rightarrow> response \<times> Registry" where
  "GET now roomId registry =
     (let registry' = pruneRoom now roomId registry
      in (NextResponse_json (Peers (peers_of registry' roomId)) 200, registry'))"

definition POST :: "int \<Rightarrow> string \<Rightarrow> req_json \<Rightarrow> Registry \<Rightarrow> response option \<times> Registry" where
  "POST now roomId req registry =
     (case req of
        Rejects \<Rightarrow> (None, registry)
      | JsonNull \<Rightarrow> (None, registry)
      | JsonValue b \<Rightarrow>
          if js_falsy (body_peerId b) \<or> js_falsy (body_name b)
          then (Some (NextResponse_json (Error ''peerId and name are required'') 400), registry)
          else
            (let p = the (body_peerId b); n = the (body_name b);
                 roomPeers = room_of registry roomId;
                 roomPeers' = AList.update p \<lparr>peerId = p, name = n, updatedAt = now\<rparr> roomPeers;
                 registry' = AList.update roomId roomPeers' registry
             in (Some (NextResponse_json (Peers (map snd roomPeers')) 200), registry')))"

definition DELETE :: "string \<Rightarrow> req_json \<Rightarrow> Registry \<Rightarrow> response option \<times> Registry" where
  "DELETE roomId req registry =
     (case req of
        Rejects \<Rightarrow> (None, registry)
      | JsonNull \<Rightarrow> (None, registry)
      | JsonValue b \<Rightarrow>
          if js_falsy (body_peerId b)
          then (Some (NextResponse_json (Error ''peerId is required'') 400), registry)
          else
            (let p = the (body_peerId b);
                 registry' =
                   (case map_of registry roomId of
                      None \<Rightarrow> registry
                    | Some roomPeers \<Rightarrow>
                        (let roomPeers' = AList.delete p roomPeers
                         in if length roomPeers' = 0 then AList.delete roomId registry
                            else AList.update roomId roomPeers' registry))
             in (Some (NextResponse_json (Peers (peers_of registry' roomId)) 200), registry')))"

text \<open>The requests the registry serves, and a run of them from the empty registry
  (\<open>globalThis.__roomRegistry || new Map()\<close> at process start).\<close>

datatype request =
    Get int string
  | Post int string req_json
  | Delete string req_json

fun serve :: "Registry \<Rightarrow> request \<Rightarrow> Registry" where
  "serve registry (Get now roomId) = snd (GET now roomId registry)"
| "serve registry (Post now roomId req) = snd (POST now roomId req registry)"
| "serve registry (Delete roomId req) = snd (DELETE roomId req registry)"

definition serve_all :: "request list \<Rightarrow> Registry" where
  "serve_all reqs = foldl serve [] reqs"

definition no_empty_room :: "Registry \<Rightarrow> bool" where
  "no_empty_room registry = (\<forall>(roomId, roomPeers) \<in> set registry. roomPeers \<noteq> [])"


section \<open>The room component: \<open>Room\<close> (\<open>unnamed/part_002\<close>)\<close>

subsection \<open>Data\<close>

type_synonym byte = "8 word"

definition CHUNK_SIZE :: nat where
  "CHUNK_SIZE = 65536"

text \<open>A browser \<open>File\<close>: \<open>file.size\<close> is the number of its bytes.\<close>

record File =
  file_name :: string
  file_type :: string
  file_bytes :: "byte list"

text \<open>\<open>new Blob(parts, {type})\<close> holds the concatenation of its parts.\<close>

record Blob =
  blob_bytes :: "byte list"
  blob_type :: string

definition new_Blob :: "byte list list \<Rightarrow> string \<Rightarrow> Blob" where
  "new_Blob parts ty = \<lparr>blob_bytes = concat parts, blob_type = ty\<rparr>"

record FileMetadata =
  md_name :: string
  md_size :: nat
  md_type :: string
  senderId :: string
  senderName :: string
  fileId :: string

text \<open>
  The messages of a channel. \<open>Join\<close> carries \<open>{name, peerId}\<close>, \<open>UserLeft\<close> the peer id,
  \<open>Chunk\<close> the payload bytes, \<open>index\<close>, \<open>totalChunks\<close> and \<open>fileId\<close>, \<open>End\<close> the \<open>fileId\<close>.
\<close>

datatype PeerData =
    Join "string RoomUser"
  | UserList "string RoomUser list"
  | UserJoined "string RoomUser"
  | UserLeft string
  | Metadata FileMetadata
  | Chunk "byte list" nat nat string
  | End string

text \<open>
  A JavaScript number that holds a percentage. Byte counts and sizes are integers and
  are kept as \<open>nat\<close>; the quotient \<open>received / size * 100\<close> is kept as an exact rational,
  with the two values the division gives for a zero size: \<open>0 / 0\<close> is \<open>NaN\<close> and
  \<open>n / 0\<close> is \<open>Infinity\<close> for \<open>n > 0\<close>.
\<close>

datatype jsnum = NaN | Infinity | Num rat

definition percent :: "nat \<Rightarrow> nat \<Rightarrow> jsnum" where
  "percent n d =
     (if d = 0 then (if n = 0 then NaN else Infinity)
      else Num (of_nat n / of_nat d * 100))"

text \<open>\<open>a <= b\<close> on these numbers: every comparison with \<open>NaN\<close> is false.\<close>

fun js_le :: "jsnum \<Rightarrow> jsnum \<Rightarrow> bool" where
  "js_le NaN _ = False"
| "js_le _ NaN = False"
| "js_le _ Infinity = True"
| "js_le Infinity (Num _) = False"
| "js_le (Num a) (Num b) = (a \<le> b)"

text \<open>
  \<open>downloadUrl\<close> is the object URL that \<open>URL.createObjectURL(fileBlob)\<close> returns; the
  model keeps the blob the URL stands for.
\<close>

record ReceivedFile =
  metadata :: FileMetadata
  progress :: jsnum
  chunks :: "byte list list"
  receivedSize :: nat
  downloadUrl :: "Blob option"
  completed :: bool
  toastShown :: "bool option"
  timestamp :: int
  completedAt :: "int option"

record DataConnection =
  conn_open :: bool

text \<open>
  The state of the component that the handlers below read and write: the refs
  (\<open>myPeerIdRef\<close>, \<open>myNameRef\<close>, \<open>usersRef\<close>, \<open>connectionsRef\<close>) and the React state
  (\<open>isJoined\<close>, \<open>users\<close>, \<open>receivedFiles\<close>, \<open>status\<close>). A state updater passed to
  \<open>setUsers\<close> or \<open>setReceivedFiles\<close> is applied at once. The sender's own history
  (\<open>sentFiles\<close>), the file picker (\<open>selectedFiles\<close>) and \<open>isSending\<close> are not part of
  the model.
\<close>

record Room =
  myPeerIdRef :: "string option"
  myNameRef :: string
  isJoined :: bool
  users :: "string RoomUser list"
  usersRef :: "string RoomUser list"
  connectionsRef :: "(string, DataConnection) js_map"
  receivedFiles :: "(string, ReceivedFile) js_map"
  room_status :: string

text \<open>
  What a handler does to the outside, in order. Each effect is the call the handler
  makes, not its outcome: \<open>Send p data\<close> is \<open>conn.send(data)\<close> on the connection to \<open>p\<close>,
  \<open>Close p\<close> is \<open>conn.close()\<close>, \<open>Connect p\<close> is \<open>connectToPeerRef.current(p)\<close>,
  \<open>FetchDelete roomId p\<close> is the \<open>DELETE\<close> request for \<open>p\<close> to the registry, and
  \<open>Toast title\<close> is \<open>addToast\<close> with that title.
\<close>

datatype effect =
    Send string PeerData
  | Close string
  | Connect string
  | FetchDelete string string
  | Toast string

subsection \<open>\<open>broadcastToOthers\<close> and \<open>handleData\<close>\<close>

text \<open>
  \<open>broadcastToOthers(data, excludePeerId?)\<close> calls \<open>conn.send(data)\<close> on every
  connection that is open and is not the excluded peer's; an exception of \<open>send\<close> is
  caught and logged.
\<close>

definition broadcastToOthers :: "PeerData \<Rightarrow> string option \<Rightarrow> Room \<Rightarrow> effect list" where
  "broadcastToOthers data excludePeerId st =
     map (\<lambda>(p, conn). Send p data)
       (filter (\<lambda>(p, conn). Some p \<noteq> excludePeerId \<and> conn_open conn) (connectionsRef st))"

text \<open>\<open>prev.find((u) => u.peerId === newUser.peerId)\<close> finds a member.\<close>

definition known :: "string RoomUser list \<Rightarrow> string \<Rightarrow> bool" where
  "known prev p = (find (\<lambda>u. peerId u = p) prev \<noteq> None)"

definition add_user :: "string RoomUser \<Rightarrow> Room \<Rightarrow> Room" where
  "add_user newUser st =
     (if \<not> known (users st) (peerId newUser)
      then (let updated = users st @ [newUser] in st\<lparr>users := updated, usersRef := updated\<rparr>)
      else st)"

text \<open>The \<open>merged\<close> map of the \<open>user-list\<close> branch: \<open>us.forEach((u) => merged.set(u.peerId, u))\<close>.\<close>

definition set_all ::
  "(string, string RoomUser) js_map \<Rightarrow> string RoomUser list \<Rightarrow> (string, string RoomUser) js_map" where
  "set_all merged us = foldl (\<lambda>m u. AList.update (peerId u) u m) merged us"

text \<open>The entry the \<open>metadata\<close> branch stores for a new \<open>fileId\<close>.\<close>

definition new_transfer :: "int \<Rightarrow> FileMetadata \<Rightarrow> ReceivedFile" where
  "new_transfer now md =
     \<lparr>metadata = md, progress = Num 0, chunks = [], receivedSize = 0,
      downloadUrl = None, completed = False, toastShown = None,
      timestamp = now, completedAt = None\<rparr>"

definition handleData :: "int \<Rightarrow> PeerData \<Rightarrow> Room \<Rightarrow> Room \<times> effect list" where
  "handleData now data st =
     (case data of
        Join newUser \<Rightarrow> (add_user newUser st, [])
      | UserList payload \<Rightarrow>
          (let userList = filter (\<lambda>u. Some (peerId u) \<noteq> myPeerIdRef st) payload;
               merged = set_all (set_all [] (users st)) userList;
               updated = map snd merged
           in (st\<lparr>users := updated, usersRef := updated\<rparr>, []))
      | UserJoined newUser \<Rightarrow>
          (add_user newUser st,
           if map_of (connectionsRef st) (peerId newUser) = None
              \<and> Some (peerId newUser) \<noteq> myPeerIdRef st
           then [Connect (peerId newUser)] else [])
      | UserLeft p \<Rightarrow>
          (let updated = filter (\<lambda>u. peerId u \<noteq> p) (users st);
               st' = st\<lparr>users := updated, usersRef := updated\<rparr>
           in case map_of (connectionsRef st) p of
                None \<Rightarrow> (st', [])
              | Some conn \<Rightarrow> (st'\<lparr>connectionsRef := AList.delete p (connectionsRef st)\<rparr>, [Close p]))
      | Metadata md \<Rightarrow>
          (case map_of (receivedFiles st) (fileId md) of
             Some existing \<Rightarrow>
               if completed existing then (st, [])
               else (st\<lparr>receivedFiles := receivedFiles st\<rparr>, [])
           | None \<Rightarrow>
               (st\<lparr>receivedFiles :=
                   AList.update (fileId md) (new_transfer now md) (receivedFiles st)\<rparr>, []))
      | Chunk chunk index totalChunks fid \<Rightarrow>
          (case map_of (receivedFiles st) fid of
             None \<Rightarrow> (st, [])
           | Some file \<Rightarrow>
               if \<not> completed file
               then
                 (st\<lparr>receivedFiles :=
                     AList.update fid
                       (file\<lparr>chunks := chunks file @ [chunk],
                             receivedSize := receivedSize file + length chunk,
                             progress := percent (receivedSize file + length chunk)
                                           (md_size (metadata file))\<rparr>)
                       (receivedFiles st)\<rparr>, [])
               else (st, []))
      | End fid \<Rightarrow>
          (case map_of (receivedFiles st) fid of
             None \<Rightarrow> (st, [])
           | Some file \<Rightarrow>
               if \<not> completed file
               then
                 (st\<lparr>receivedFiles :=
                     AList.update fid
                       (file\<lparr>downloadUrl := Some (new_Blob (chunks file) (md_type (metadata file))),
                             completed := True,
                             progress := Num 100,
                             completedAt := Some now\<rparr>)
                       (receivedFiles st)\<rparr>, [])
               else (st, [])))"


text \<open>
  The messages a connection delivers, each with the value \<open>Date.now()\<close> has when it is
  handled, processed one at a time in order.
\<close>

definition receive_all :: "Room \<Rightarrow> (int \<times> PeerData) list \<Rightarrow> Room" where
  "receive_all st evs = foldl (\<lambda>s (now, data). fst (handleData now data s)) st evs"

text \<open>The transfer a message belongs to, for the three transfer messages.\<close>

fun transfer_of :: "PeerData \<Rightarrow> string option" where
  "transfer_of (Metadata md) = Some (fileId md)"
| "transfer_of (Chunk chunk index totalChunks fid) = Some fid"
| "transfer_of (End fid) = Some fid"
| "transfer_of _ = None"

text \<open>The messages among \<open>evs\<close> that carry the \<open>fileId\<close> \<open>fid\<close>, in order.\<close>

definition for_transfer :: "string \<Rightarrow> (int \<times> PeerData) list \<Rightarrow> (int \<times> PeerData) list" where
  "for_transfer fid evs = filter (\<lambda>(now, data). transfer_of data = Some fid) evs"

fun chunk_payloads :: "PeerData list \<Rightarrow> byte list list" where
  "chunk_payloads [] = []"
| "chunk_payloads (Chunk chunk index totalChunks fid # ds) = chunk # chunk_payloads ds"
| "chunk_payloads (d # ds) = chunk_payloads ds"

subsection \<open>\<open>sendSingleFile\<close>\<close>

text \<open>Decimal digits of a number, for the template string that builds a \<open>fileId\<close>.\<close>

fun digits :: "nat \<Rightarrow> string" where
  "digits n =
     (if n < 10 then [char_of (48 + n)]
      else digits (n div 10) @ [char_of (48 + n mod 10)])"

declare digits.simps [simp del]

definition show_int :: "int \<Rightarrow> string" where
  "show_int i = (if i < 0 then CHR ''-'' # digits (nat (- i)) else digits (nat i))"

text \<open>
  The read loop of \<open>sendSingleFile\<close>: \<open>readSlice(start)\<close> reads
  \<open>file.slice(start, start + CHUNK_SIZE)\<close>; \<open>onload\<close> broadcasts the chunk with \<open>index: 0\<close> and
  \<open>totalChunks: 0\<close>, adds its length to \<open>offset\<close>, and either reads the next slice
  (\<open>offset < file.size\<close>) or broadcasts \<open>end\<close>. \<open>readable start\<close> tells whether the read at
  offset \<open>start\<close> succeeds; when it fails, \<open>onerror\<close> runs and nothing more is sent.
  The result of a read that succeeds is an \<open>ArrayBuffer\<close>, an object and so truthy also
  when it is empty. The function returns the messages handed to \<open>broadcastToOthers\<close>,
  in order.
\<close>

function readSlice :: "(nat \<Rightarrow> bool) \<Rightarrow> File \<Rightarrow> string \<Rightarrow> nat \<Rightarrow> PeerData list" where
  "readSlice readable file fid start =
     (if \<not> readable start then []
      else
        (let chunk = take CHUNK_SIZE (drop start (file_bytes file));
             offset = start + length chunk
         in Chunk chunk 0 0 fid #
            (if offset < length (file_bytes file) then readSlice readable file fid offset
             else [End fid])))"
  by pat_completeness auto
termination
  by (relation "measure (\<lambda>(readable, file, fid, start). length (file_bytes file) - start)")
     (auto simp: CHUNK_SIZE_def)

declare readSlice.simps [simp del]

text \<open>
  \<open>sendSingleFile(file, isResend, existingFileId)\<close> with the component's \<open>myPeerId\<close>,
  \<open>myName\<close> and \<open>connectionsRef\<close>, and \<open>now\<close> for \<open>Date.now()\<close>. It returns early (\<open>None\<close>)
  without a peer id or a name, or with no connection; otherwise it broadcasts the
  metadata and runs the read loop. \<open>isResend\<close> only decides whether the sender's own
  history is updated and which toast is shown.
\<close>

definition sendSingleFile ::
  "string option \<Rightarrow> string \<Rightarrow> (string, DataConnection) js_map \<Rightarrow> int \<Rightarrow> (nat \<Rightarrow> bool) \<Rightarrow>
   File \<Rightarrow> bool \<Rightarrow> string option \<Rightarrow> PeerData list option" where
  "sendSingleFile myPeerId myName connections now readable file isResend existingFileId =
     (if falsy myPeerId \<or> myName = [] then None
      else if length connections = 0 then None
      else
        (let me = the myPeerId;
             fid = (if falsy existingFileId
                    then me @ ''_'' @ show_int now @ ''_'' @ file_name file
                    else the existingFileId);
             md = \<lparr>md_name = file_name file, md_size = length (file_bytes file),
                   md_type = file_type file, senderId = me, senderName = myName,
                   fileId = fid\<rparr>
         in Some (Metadata md # readSlice readable file fid 0)))"

subsection \<open>\<open>handleLeaveRoom\<close>\<close>

text \<open>
  \<open>await fetch(..., {method: 'DELETE'})\<close> either resolves (with any HTTP status) or
  rejects (the request could not be made). A rejection leaves the \<open>try\<close> block for the
  \<open>catch\<close>, which logs and shows an error toast.
\<close>

datatype fetch_result = Resolved | Rejected

definition handleLeaveRoom :: "string \<Rightarrow> fetch_result \<Rightarrow> Room \<Rightarrow> Room \<times> effect list" where
  "handleLeaveRoom roomId fetched st =
     (if falsy (myPeerIdRef st) then (st, [])
      else
        (let me = the (myPeerIdRef st);
             notified = broadcastToOthers (UserLeft me) None st @ [FetchDelete roomId me]
         in case fetched of
              Rejected \<Rightarrow> (st, notified @ [Toast ''Error''])
            | Resolved \<Rightarrow>
                (st\<lparr>connectionsRef := [], isJoined := False, users := [],
                    receivedFiles := [], room_status := ''Left room''\<rparr>,
                 notified @ map (\<lambda>(p, conn). Close p) (connectionsRef st)
                   @ [Toast ''Left Room''])))"

text \<open>An invariant of the received files: a sealed transfer shows 100 percent.\<close>

definition sealed_at_100 :: "(string, ReceivedFile) js_map \<Rightarrow> bool" where
  "sealed_at_100 rf = (\<forall>(k, f) \<in> set rf. completed f \<longrightarrow> progress f = Num 100)"

section \<open>The one-to-one pair: \<open>components/Receiver.tsx\<close> and \<open>Sender\<close> (\<open>unnamed/part_001\<close>)\<close>

text \<open>
  The messages of the one-to-one pair carry no \<open>fileId\<close>: \<open>metadata\<close> has
  \<open>{name, size, type}\<close>, \<open>chunk\<close> has the payload and, in the receiver's type, \<open>index\<close> and
  \<open>totalChunks\<close>, which the sender does not set (\<open>None\<close>) and the receiver does not read.
\<close>

record FileInfo =
  info_name :: string
  info_size :: nat
  info_type :: string

datatype ReceiverData =
    RMetadata FileInfo
  | RChunk "byte list" "nat option" "nat option"
  | REnd

text \<open>The state \<open>onData\<close> reads and writes: the React state and the three refs.\<close>

record Receiver =
  fileInfo :: "FileInfo option"
  rcv_status :: string
  rcv_progress :: jsnum
  rcv_downloadUrl :: "Blob option"
  isReceiving :: bool
  rcv_error :: "string option"
  receivedChunksRef :: "byte list list"
  receivedSizeRef :: nat
  fileInfoRef :: "FileInfo option"

definition onData :: "ReceiverData \<Rightarrow> Receiver \<Rightarrow> Receiver" where
  "onData peerData r =
     (case peerData of
        RMetadata md \<Rightarrow>
          r\<lparr>fileInfoRef := Some md, fileInfo := Some md, isReceiving := True,
            rcv_status := ''Receiving '' @ info_name md @ ''...'',
            receivedChunksRef := [], receivedSizeRef := 0,
            rcv_downloadUrl := None, rcv_progress := Num 0, rcv_error := None\<rparr>
      | RChunk chunk index totalChunks \<Rightarrow>
          (let r' = r\<lparr>receivedChunksRef := receivedChunksRef r @ [chunk],
                       receivedSizeRef := receivedSizeRef r + length chunk\<rparr>
           in case fileInfoRef r' of
                None \<Rightarrow> r'
              | Some info \<Rightarrow>
                  r'\<lparr>rcv_progress := percent (receivedSizeRef r') (info_size info)\<rparr>)
      | REnd \<Rightarrow>
          (case fileInfoRef r of
             None \<Rightarrow> r
           | Some info \<Rightarrow>
               r\<lparr>rcv_downloadUrl := Some (new_Blob (receivedChunksRef r) (info_type info)),
                 rcv_status := ''File received! Click to download.'',
                 isReceiving := False, fileInfoRef := None\<rparr>))"

text \<open>The messages the one connection delivers, handled one at a time in order.\<close>

definition onData_all :: "Receiver \<Rightarrow> ReceiverData list \<Rightarrow> Receiver" where
  "onData_all r ds = foldl (\<lambda>s d. onData d s) r ds"

text \<open>
  The read loop of \<open>sendFile\<close> in the sender: the same slices as in the room. \<open>onload\<close>
  sends the chunk only while \<open>connRef.current?.open\<close> holds, and an exception of \<open>send\<close>
  is caught; \<open>sendable start\<close> tells whether the connection is open and the sends
  succeed when the slice read at \<open>start\<close> is handled. When it is not, or when the read
  fails (\<open>readable start\<close> is false), nothing more is sent.
\<close>

function sendFile_loop ::
  "(nat \<Rightarrow> bool) \<Rightarrow> (nat \<Rightarrow> bool) \<Rightarrow> File \<Rightarrow> nat \<Rightarrow> ReceiverData list" where
  "sendFile_loop readable sendable fileToSend start =
     (if \<not> readable start then []
      else
        (let chunk = take CHUNK_SIZE (drop start (file_bytes fileToSend))
         in if \<not> sendable start then []
            else
              (let offset = start + length chunk
               in RChunk chunk None None #
                  (if offset < length (file_bytes fileToSend)
                   then sendFile_loop readable sendable fileToSend offset
                   else [REnd]))))"
  by pat_completeness auto
termination
  by (relation "measure (\<lambda>(readable, sendable, fileToSend, start).
                  length (file_bytes fileToSend) - start)")
     (auto simp: CHUNK_SIZE_def)

declare sendFile_loop.simps [simp del]

text \<open>
  \<open>sendFile(fileToSend, conn)\<close>: without a connection, or with one that is not open, it
  returns early (\<open>None\<close>); otherwise it sends the metadata and runs the read loop. The
  result is the list of messages sent on the connection, in order.
\<close>

definition sendFile ::
  "DataConnection option \<Rightarrow> (nat \<Rightarrow> bool) \<Rightarrow> (nat \<Rightarrow> bool) \<Rightarrow> File \<Rightarrow>
   ReceiverData list option" where
  "sendFile conn readable sendable fileToSend =
     (case conn of
        None \<Rightarrow> None
      | Some c \<Rightarrow>
          if \<not> conn_open c then None
          else
            Some (RMetadata \<lparr>info_name = file_name fileToSend,
                               info_size = length (file_bytes fileToSend),
                               info_type = file_type fileToSend\<rparr>
                  # sendFile_loop readable sendable fileToSend 0))"

text \<open>The component as it is mounted.\<close>

definition initial_Receiver :: Receiver where
  "initial_Receiver =
     \<lparr>fileInfo = None, rcv_status = ''Connecting to peer...'', rcv_progress = Num 0,
      rcv_downloadUrl = None, isReceiving = False, rcv_error = None,
      receivedChunksRef = [], receivedSizeRef = 0, fileInfoRef = None\<rparr>"

section \<open>Example data\<close>

definition demo_old :: PeerEntry where
  "demo_old = \<lparr>peerId = JStr ''a'', name = JStr ''Ann'', updatedAt = 0\<rparr>"

definition demo_new :: PeerEntry where
  "demo_new = \<lparr>peerId = JStr ''b'', name = JStr ''Bob'', updatedAt = 3600000\<rparr>"

definition demo_registry :: Registry where
  "demo_registry = [(''r'', [(JStr ''a'', demo_old), (JStr ''b'', demo_new)])]"

definition demo_body :: ReqBody where
  "demo_body = \<lparr>body_peerId = Some (JStr ''c''), body_name = Some (JStr ''Cy'')\<rparr>"

definition demo_room :: Room where
  "demo_room =
     \<lparr>myPeerIdRef = Some ''me'', myNameRef = ''Me'', isJoined = True,
      users = [\<lparr>peerId = ''b'', name = ''Bob''\<rparr>],
      usersRef = [\<lparr>peerId = ''b'', name = ''Bob''\<rparr>],
      connectionsRef = [(''b'', \<lparr>conn_open = True\<rparr>)],
      receivedFiles = [], room_status = ''Joined room''\<rparr>"

definition demo_md :: FileMetadata where
  "demo_md = \<lparr>md_name = ''a.bin'', md_size = 1, md_type = ''application/octet-stream'',
              senderId = ''b'', senderName = ''Bob'', fileId = ''f1''\<rparr>"

definition demo_sealed :: ReceivedFile where
  "demo_sealed =
     \<lparr>metadata = demo_md, progress = Num 100, chunks = [[7]], receivedSize = 1,
      downloadUrl = Some \<lparr>blob_bytes = [7], blob_type = ''application/octet-stream''\<rparr>,
      completed = True, toastShown = None, timestamp = 1, completedAt = Some 3\<rparr>"

definition demo_events :: "(int \<times> PeerData) list" where
  "demo_events = [(1, Metadata demo_md), (2, Chunk [7] 0 0 ''f1''), (3, End ''f1'')]"

definition demo_file :: File where
  "demo_file = \<lparr>file_name = ''a.bin'', file_type = ''application/octet-stream'',
                file_bytes = replicate 150000 0\<rparr>"

definition demo_md150 :: FileMetadata where
  "demo_md150 = \<lparr>md_name = ''a.bin'', md_size = 150000, md_type = ''application/octet-stream'',
                 senderId = ''b'', senderName = ''Bob'', fileId = ''b_1000_a.bin''\<rparr>"

definition demo_rest150 :: "PeerData list" where
  "demo_rest150 =
     [Chunk (replicate 65536 0) 0 0 ''b_1000_a.bin'',
      Chunk (replicate 65536 0) 0 0 ''b_1000_a.bin'',
      Chunk (replicate 18928 0) 0 0 ''b_1000_a.bin'',
      End ''b_1000_a.bin'']"

definition demo_events150 :: "(int \<times> PeerData) list" where
  "demo_events150 =
     [(1001, Metadata demo_md150),
      (1002, UserJoined \<lparr>peerId = ''c'', name = ''Cy''\<rparr>),
      (1003, Chunk (replicate 65536 0) 0 0 ''b_1000_a.bin''),
      (1004, Chunk [1, 2] 0 0 ''c_1000_other.bin''),
      (1005, Chunk (replicate 65536 0) 0 0 ''b_1000_a.bin''),
      (1006, Chunk (replicate 18928 0) 0 0 ''b_1000_a.bin''),
      (1007, End ''b_1000_a.bin''),
      (1008, UserLeft ''c'')]"

definition demo_recv2 :: ReceivedFile where
  "demo_recv2 =
     \<lparr>metadata = demo_md150, progress = percent 131072 150000,
      chunks = [replicate 65536 0, replicate 65536 0], receivedSize = 131072,
      downloadUrl = None, completed = False, toastShown = None, timestamp = 1001,
      completedAt = None\<rparr>"

definition demo_recv3 :: ReceivedFile where
  "demo_recv3 =
     \<lparr>metadata = demo_md150, progress = Num 100,
      chunks = [replicate 65536 0, replicate 65536 0, replicate 18928 0],
      receivedSize = 150000,
      downloadUrl = None, completed = False, toastShown = None, timestamp = 1001,
      completedAt = None\<rparr>"

definition demo_done150 :: ReceivedFile where
  "demo_done150 =
     \<lparr>metadata = demo_md150, progress = Num 100,
      chunks = [replicate 65536 0, replicate 65536 0, replicate 18928 0],
      receivedSize = 150000,
      downloadUrl = Some (new_Blob [replicate 65536 0, replicate 65536 0, replicate 18928 0]
                            ''application/octet-stream''),
      completed = True, toastShown = None, timestamp = 1001,
      completedAt = Some 1007\<rparr>"

definition demo_file1 :: File where
  "demo_file1 = \<lparr>file_name = ''a.bin'', file_type = ''application/octet-stream'',
                 file_bytes = [7]\<rparr>"

definition demo_file2 :: File where
  "demo_file2 = \<lparr>file_name = ''b.bin'', file_type = ''application/octet-stream'',
                 file_bytes = replicate 65537 0\<rparr>"

definition demo_md2 :: FileMetadata where
  "demo_md2 = \<lparr>md_name = ''b.bin'', md_size = 65537, md_type = ''application/octet-stream'',
               senderId = ''b'', senderName = ''Bob'', fileId = ''b_1000_b.bin''\<rparr>"

definition demo_events2 :: "(int \<times> PeerData) list" where
  "demo_events2 =
     [(1001, Metadata demo_md2),
      (1002, Chunk (replicate 65536 0) 0 0 ''b_1000_b.bin''),
      (2001, Metadata demo_md2),
      (2002, Chunk (replicate 65536 0) 0 0 ''b_1000_b.bin''),
      (2003, Chunk [0] 0 0 ''b_1000_b.bin''),
      (2004, End ''b_1000_b.bin'')]"


definition demo_ds150 :: "ReceiverData list" where
  "demo_ds150 =
     [RMetadata \<lparr>info_name = ''a.bin'', info_size = 150000,
                  info_type = ''application/octet-stream''\<rparr>,
      RChunk (replicate 65536 0) None None,
      RChunk (replicate 65536 0) None None,
      RChunk (replicate 18928 0) None None,
      REnd]"

section \<open>The registry: pruning, status codes and empty rooms\<close>


lemma set_forEach_prune:
  "set (forEach_prune now xs m) =
     {(k, e). (k, e) \<in> set m \<and> \<not> (\<exists>e'. (k, e') \<in> set xs \<and> stale now e')}"
proof (induction xs arbitrary: m)
  case Nil
  then show ?case by auto
next
  case (Cons x xs)
  obtain key entry where x: "x = (key, entry)" by (cases x)
  show ?case
    unfolding x by (auto simp: Cons.IH AList.delete_eq)
qed

lemma stale_not_in_forEach_prune:
  assumes "(key, entry) \<in> set roomPeers" "stale now entry"
  shows "entry \<notin> snd ` set (forEach_prune now roomPeers roomPeers)"
  using assms by (auto simp: set_forEach_prune)

lemma peers_of_pruneRoom:
  "map_of registry roomId = Some roomPeers \<Longrightarrow>
   peers_of (pruneRoom now roomId registry) roomId = map snd (forEach_prune now roomPeers roomPeers)"
  by (auto simp: peers_of_def pruneRoom_def Let_def AList.update_conv' AList.delete_conv')

lemma set_update_keeps:
  "(k', e) \<in> set m \<Longrightarrow> k' \<noteq> k \<Longrightarrow> (k', e) \<in> set (AList.update k v m)"
  by (induction m) auto

lemma set_update_subset: "set (AList.update k v m) \<subseteq> insert (k, v) (set m)"
  by (induction m) auto

lemma set_delete_subset: "set (AList.delete k m) \<subseteq> set m"
  by (auto simp: AList.delete_eq)

lemma no_empty_room_delete:
  "no_empty_room registry \<Longrightarrow> no_empty_room (AList.delete roomId registry)"
  using set_delete_subset [of roomId registry] by (auto simp: no_empty_room_def)

lemma no_empty_room_update:
  "no_empty_room registry \<Longrightarrow> roomPeers \<noteq> [] \<Longrightarrow>
   no_empty_room (AList.update roomId roomPeers registry)"
  using set_update_subset [of roomId roomPeers registry] by (auto simp: no_empty_room_def)

lemma no_empty_room_pruneRoom:
  "no_empty_room registry \<Longrightarrow> no_empty_room (pruneRoom now roomId registry)"
  by (simp add: pruneRoom_def Let_def no_empty_room_delete no_empty_room_update split: option.splits)

lemma no_empty_room_GET:
  "no_empty_room registry \<Longrightarrow> no_empty_room (snd (GET now roomId registry))"
  by (simp add: GET_def Let_def no_empty_room_pruneRoom)

lemma no_empty_room_DELETE:
  "no_empty_room registry \<Longrightarrow> no_empty_room (snd (DELETE roomId req registry))"
  by (simp add: DELETE_def Let_def no_empty_room_delete no_empty_room_update
      split: option.splits req_json.splits)

lemma no_empty_room_POST:
  "no_empty_room registry \<Longrightarrow> no_empty_room (snd (POST now roomId req registry))"
  by (simp add: POST_def Let_def no_empty_room_update split: req_json.splits)

lemma no_empty_room_serve:
  "no_empty_room registry \<Longrightarrow> no_empty_room (serve registry r)"
  by (cases r) (simp_all add: no_empty_room_GET no_empty_room_DELETE no_empty_room_POST)

lemma no_empty_room_foldl:
  "no_empty_room registry \<Longrightarrow> no_empty_room (foldl serve registry reqs)"
  by (induction reqs arbitrary: registry) (simp_all add: no_empty_room_serve)

lemma room_after_pruneRoom: "map_of (pruneRoom now roomId registry) roomId \<noteq> Some []"
  by (auto simp: pruneRoom_def Let_def AList.update_conv' AList.delete_conv' split: option.splits)


text \<open>
  Claim C5. An entry of a room whose \<open>updatedAt\<close> is more than one hour
  (\<open>1000 * 60 * 60\<close> milliseconds) before the time of a \<open>GET\<close> for that room is not in
  the peers list that the \<open>GET\<close> returns.
\<close>

theorem GET_prunes_stale:
  assumes "map_of registry roomId = Some roomPeers"
    and "(key, entry) \<in> set roomPeers"
    and "now - updatedAt entry > 1000 * 60 * 60"
  shows "\<exists>peers. fst (GET now roomId registry) = NextResponse_json (Peers peers) 200
           \<and> entry \<notin> set peers"
proof -
  have "stale now entry"
    using assms(3) by (simp add: stale_def)
  then have "entry \<notin> set (map snd (forEach_prune now roomPeers roomPeers))"
    using stale_not_in_forEach_prune [OF assms(2)] by simp
  then show ?thesis
    by (simp add: GET_def Let_def peers_of_pruneRoom [OF assms(1)])
qed

text \<open>The hypotheses of C5 hold for the entry of Ann in the example registry at time 3600001.\<close>

theorem GET_prunes_stale_witness:
  "map_of demo_registry ''r'' = Some [(JStr ''a'', demo_old), (JStr ''b'', demo_new)]
   \<and> (JStr ''a'', demo_old) \<in> set [(JStr ''a'', demo_old), (JStr ''b'', demo_new)]
   \<and> 3600001 - updatedAt demo_old > 1000 * 60 * 60
   \<and> (\<exists>peers. fst (GET 3600001 ''r'' demo_registry) = NextResponse_json (Peers peers) 200
           \<and> demo_old \<notin> set peers)"
proof -
  have h1: "map_of demo_registry ''r'' = Some [(JStr ''a'', demo_old), (JStr ''b'', demo_new)]"
    by (simp add: demo_registry_def)
  have h2: "(JStr ''a'', demo_old) \<in> set [(JStr ''a'', demo_old), (JStr ''b'', demo_new)]"
    by simp
  have h3: "3600001 - updatedAt demo_old > 1000 * 60 * 60"
    by (simp add: demo_old_def)
  show ?thesis
    using h1 h2 h3 GET_prunes_stale [OF h1 h2 h3] by blast
qed

text \<open>
  Claim C10. \<open>POST\<close> does not prune: an entry of the room that is more than one hour old,
  and is not the entry of the posting peer, is in the peers list that an accepted \<open>POST\<close>
  (one whose \<open>peerId\<close> and \<open>name\<close> are truthy) returns, and that list is the room's
  content in the registry after the \<open>POST\<close>.
\<close>

theorem POST_keeps_stale:
  assumes "map_of registry roomId = Some roomPeers"
    and "(key, entry) \<in> set roomPeers"
    and "now - updatedAt entry > 1000 * 60 * 60"
    and "key \<noteq> p" and "\<not> js_falsy (Some p)" and "\<not> js_falsy (Some n)"
  shows "\<exists>peers. fst (POST now roomId (JsonValue \<lparr>body_peerId = Some p, body_name = Some n\<rparr>) registry)
             = Some (NextResponse_json (Peers peers) 200)
           \<and> entry \<in> set peers
           \<and> peers_of (snd (POST now roomId (JsonValue \<lparr>body_peerId = Some p, body_name = Some n\<rparr>) registry)) roomId
             = peers"
proof -
  let ?e = "\<lparr>peerId = p, name = n, updatedAt = now\<rparr>"
  have "(key, entry) \<in> set (AList.update p ?e roomPeers)"
    using assms(2,4) by (rule set_update_keeps)
  then have "entry \<in> snd ` set (AList.update p ?e roomPeers)"
    by force
  then show ?thesis
    using assms(1,5,6)
    by (simp add: POST_def Let_def peers_of_def room_of_def AList.update_conv')
qed

text \<open>The hypotheses of C10 hold when Cy posts to the example room at time 3600001.\<close>

theorem POST_keeps_stale_witness:
  "map_of demo_registry ''r'' = Some [(JStr ''a'', demo_old), (JStr ''b'', demo_new)]
   \<and> (JStr ''a'', demo_old) \<in> set [(JStr ''a'', demo_old), (JStr ''b'', demo_new)]
   \<and> 3600001 - updatedAt demo_old > 1000 * 60 * 60
   \<and> JStr ''a'' \<noteq> JStr ''c'' \<and> \<not> js_falsy (Some (JStr ''c'')) \<and> \<not> js_falsy (Some (JStr ''Cy''))
   \<and> (\<exists>peers. fst (POST 3600001 ''r'' (JsonValue demo_body) demo_registry)
             = Some (NextResponse_json (Peers peers) 200)
           \<and> demo_old \<in> set peers
           \<and> peers_of (snd (POST 3600001 ''r'' (JsonValue demo_body) demo_registry)) ''r''
             = peers)"
proof -
  have h1: "map_of demo_registry ''r'' = Some [(JStr ''a'', demo_old), (JStr ''b'', demo_new)]"
    by (simp add: demo_registry_def)
  have h2: "(JStr ''a'', demo_old) \<in> set [(JStr ''a'', demo_old), (JStr ''b'', demo_new)]"
    by simp
  have h3: "3600001 - updatedAt demo_old > 1000 * 60 * 60"
    by (simp add: demo_old_def)
  have h4: "JStr ''a'' \<noteq> JStr ''c''" and h5: "\<not> js_falsy (Some (JStr ''c''))"
    and h6: "\<not> js_falsy (Some (JStr ''Cy''))"
    by simp_all
  have b: "demo_body = \<lparr>body_peerId = Some (JStr ''c''), body_name = Some (JStr ''Cy'')\<rparr>"
    by (simp add: demo_body_def)
  show ?thesis
    unfolding b
    using h1 h2 h3 h4 h5 h6 POST_keeps_stale [OF h1 h2 h3 h4 h5 h6] by blast
qed

text \<open>
  Claim C7. After any run of requests from the empty registry no room has an empty peer
  map; after a \<open>GET\<close> or an accepted \<open>DELETE\<close> the room of the request is never stored
  with an empty peer map; and \<open>GET\<close> and \<open>DELETE\<close> keep a registry free of empty rooms.
\<close>

theorem registry_has_no_empty_room:
  "no_empty_room (serve_all reqs)
   \<and> map_of (snd (GET now roomId registry)) roomId \<noteq> Some []
   \<and> (\<not> js_falsy (body_peerId b) \<longrightarrow>
        map_of (snd (DELETE roomId (JsonValue b) registry)) roomId \<noteq> Some [])
   \<and> (no_empty_room registry \<longrightarrow>
        no_empty_room (snd (GET now roomId registry))
        \<and> no_empty_room (snd (DELETE roomId req registry)))"
proof -
  have "no_empty_room []"
    by (simp add: no_empty_room_def)
  then have a: "no_empty_room (serve_all reqs)"
    unfolding serve_all_def by (rule no_empty_room_foldl)
  have b: "map_of (snd (GET now roomId registry)) roomId \<noteq> Some []"
    by (simp add: GET_def Let_def room_after_pruneRoom)
  have c: "map_of (snd (DELETE roomId (JsonValue b) registry)) roomId \<noteq> Some []"
    if "\<not> js_falsy (body_peerId b)"
    using that
    by (auto simp: DELETE_def Let_def AList.update_conv' AList.delete_conv'
        split: option.splits)
  show ?thesis
    using a b c no_empty_room_GET no_empty_room_DELETE by blast
qed

text \<open>
  C7 on runs where pruning and removal empty the room: the room entry is gone and the
  registry is empty.
\<close>

theorem registry_has_no_empty_room_witness:
  "no_empty_room demo_registry
   \<and> \<not> js_falsy (body_peerId \<lparr>body_peerId = Some (JStr ''a''), body_name = None\<rparr>)
   \<and> serve_all [Post 0 ''r'' (JsonValue \<lparr>body_peerId = Some (JStr ''a''), body_name = Some (JStr ''Ann'')\<rparr>),
                Get 3600001 ''r''] = []
   \<and> snd (DELETE ''r'' (JsonValue \<lparr>body_peerId = Some (JStr ''a''), body_name = None\<rparr>)
            [(''r'', [(JStr ''a'', demo_old)])]) = []
   \<and> no_empty_room (serve_all [Post 0 ''r'' (JsonValue \<lparr>body_peerId = Some (JStr ''a''), body_name = Some (JStr ''Ann'')\<rparr>),
                Get 3600001 ''r''])
   \<and> map_of (snd (DELETE ''r'' (JsonValue \<lparr>body_peerId = Some (JStr ''a''), body_name = None\<rparr>) demo_registry)) ''r''
        \<noteq> Some []
   \<and> no_empty_room (snd (GET 3600001 ''r'' demo_registry))
   \<and> no_empty_room (snd (DELETE ''r'' (JsonValue \<lparr>body_peerId = Some (JStr ''a''), body_name = None\<rparr>) demo_registry))"
proof -
  have h: "no_empty_room demo_registry"
    by (simp add: no_empty_room_def demo_registry_def)
  have t: "\<not> js_falsy (body_peerId \<lparr>body_peerId = Some (JStr ''a''), body_name = None\<rparr>)"
    by simp
  have e1: "serve_all [Post 0 ''r'' (JsonValue \<lparr>body_peerId = Some (JStr ''a''), body_name = Some (JStr ''Ann'')\<rparr>),
                Get 3600001 ''r''] = []"
    by (simp add: serve_all_def POST_def GET_def pruneRoom_def stale_def room_of_def Let_def)
  have e2: "snd (DELETE ''r'' (JsonValue \<lparr>body_peerId = Some (JStr ''a''), body_name = None\<rparr>)
            [(''r'', [(JStr ''a'', demo_old)])]) = []"
    by (simp add: DELETE_def Let_def)
  show ?thesis
    using h t e1 e2
      registry_has_no_empty_room [of "[Post 0 ''r'' (JsonValue \<lparr>body_peerId = Some (JStr ''a''), body_name = Some (JStr ''Ann'')\<rparr>),
                Get 3600001 ''r'']" 3600001 "''r''" demo_registry
                "\<lparr>body_peerId = Some (JStr ''a''), body_name = None\<rparr>"
                "JsonValue \<lparr>body_peerId = Some (JStr ''a''), body_name = None\<rparr>"]
    by blast
qed

lemma room_of_update: "room_of (AList.update roomId m registry) roomId = m"
  by (simp add: room_of_def AList.update_conv')

lemma peers_of_update: "peers_of (AList.update roomId m registry) roomId = map snd m"
  by (simp add: peers_of_def AList.update_conv')

lemma room_of_delete: "room_of (AList.delete roomId registry) roomId = []"
  by (simp add: room_of_def AList.delete_conv')

lemma delete_Nil_lookup:
  assumes "AList.delete p m = []" and "q \<noteq> p"
  shows "map_of m q = None"
proof -
  have "map_of m q = map_of (AList.delete p m) q"
    using assms(2) by simp
  then show ?thesis
    using assms(1) by simp
qed

lemma js_falsy_iff:
  "js_falsy x \<longleftrightarrow>
     x = None \<or> x = Some JNull \<or> x = Some (JBool False) \<or> x = Some (JNum 0) \<or> x = Some (JStr '''')"
  by (cases x rule: js_falsy.cases) auto

text \<open>
  Claim C6 as stated fails: a \<open>POST\<close> whose body has both fields is answered with status
  400 when \<open>peerId\<close> is the empty string, and also when it is \<open>0\<close>; and a \<open>POST\<close> or
  \<open>DELETE\<close> whose body is the JSON value \<open>null\<close>, where both fields are missing, throws
  and gives no 400 of its own.
\<close>

theorem POST_400_counterexample:
  "fst (POST 0 ''r'' (JsonValue \<lparr>body_peerId = Some (JStr ''''), body_name = Some (JStr ''Ann'')\<rparr>) [])
     = Some (NextResponse_json (Error ''peerId and name are required'') 400)
   \<and> fst (POST 0 ''r'' (JsonValue \<lparr>body_peerId = Some (JNum 0), body_name = Some (JStr ''Ann'')\<rparr>) [])
     = Some (NextResponse_json (Error ''peerId and name are required'') 400)
   \<and> fst (DELETE ''r'' (JsonValue \<lparr>body_peerId = Some (JBool False), body_name = None\<rparr>) [])
     = Some (NextResponse_json (Error ''peerId is required'') 400)
   \<and> body_peerId \<lparr>body_peerId = Some (JStr ''''), body_name = Some (JStr ''Ann'')\<rparr> \<noteq> None
   \<and> body_name \<lparr>body_peerId = Some (JStr ''''), body_name = Some (JStr ''Ann'')\<rparr> \<noteq> None
   \<and> fst (POST 0 ''r'' JsonNull []) = None
   \<and> fst (DELETE ''r'' JsonNull []) = None"
  by (simp add: POST_def DELETE_def)

lemma POST_status:
  "\<exists>r. fst (POST now roomId (JsonValue b) registry) = Some r
       \<and> (status r = 400 \<longleftrightarrow> js_falsy (body_peerId b) \<or> js_falsy (body_name b))"
  by (auto simp: POST_def Let_def)

lemma DELETE_status:
  "\<exists>r. fst (DELETE roomId (JsonValue b) registry) = Some r
       \<and> (status r = 400 \<longleftrightarrow> js_falsy (body_peerId b))"
  by (auto simp: DELETE_def Let_def)

lemma POST_upserts:
  assumes "body_peerId b = Some p" "\<not> js_falsy (Some p)" "body_name b = Some n" "\<not> js_falsy (Some n)"
  shows "room_of (snd (POST now roomId (JsonValue b) registry)) roomId
           = AList.update p \<lparr>peerId = p, name = n, updatedAt = now\<rparr> (room_of registry roomId)"
    and "fst (POST now roomId (JsonValue b) registry)
           = Some (NextResponse_json (Peers (peers_of (snd (POST now roomId (JsonValue b) registry)) roomId)) 200)"
  using assms by (simp_all add: POST_def Let_def room_of_update peers_of_update)

lemma DELETE_removes:
  assumes "body_peerId b = Some p" "\<not> js_falsy (Some p)"
  shows "map_of (room_of (snd (DELETE roomId (JsonValue b) registry)) roomId)
           = (map_of (room_of registry roomId))(p := None)"
    and "fst (DELETE roomId (JsonValue b) registry)
           = Some (NextResponse_json (Peers (peers_of (snd (DELETE roomId (JsonValue b) registry)) roomId)) 200)"
proof -
  show "fst (DELETE roomId (JsonValue b) registry)
           = Some (NextResponse_json (Peers (peers_of (snd (DELETE roomId (JsonValue b) registry)) roomId)) 200)"
    using assms by (simp add: DELETE_def Let_def)
  show "map_of (room_of (snd (DELETE roomId (JsonValue b) registry)) roomId)
           = (map_of (room_of registry roomId))(p := None)"
  proof (cases "map_of registry roomId")
    case None
    then show ?thesis
      using assms by (auto simp: DELETE_def Let_def room_of_def)
  next
    case (Some m)
    show ?thesis
    proof (cases "AList.delete p m = []")
      case True
      have "map_of m q = None" if "q \<noteq> p" for q
        using True that by (rule delete_Nil_lookup)
      then have e: "(map_of m)(p := None) = Map.empty"
        by auto
      have r: "snd (DELETE roomId (JsonValue b) registry) = AList.delete roomId registry"
        using assms Some True by (simp add: DELETE_def Let_def)
      have "room_of registry roomId = m"
        using Some by (simp add: room_of_def)
      then show ?thesis
        using e by (simp add: r room_of_delete)
    next
      case False
      have r: "snd (DELETE roomId (JsonValue b) registry)
                 = AList.update roomId (AList.delete p m) registry"
        using assms Some False by (simp add: DELETE_def Let_def)
      have "room_of registry roomId = m"
        using Some by (simp add: room_of_def)
      then show ?thesis
        by (simp add: r room_of_update AList.delete_conv')
    qed
  qed
qed

text \<open>
  Claim C6, amended. For a body that is JSON and not \<open>null\<close>, \<open>POST\<close> answers 400 exactly
  when \<open>peerId\<close> or \<open>name\<close> is missing or falsy (\<open>null\<close>, \<open>false\<close>, \<open>0\<close> or the empty
  string); otherwise it stores the entry \<open>{peerId, name, updatedAt: now}\<close> under \<open>peerId\<close>
  in the room and returns the room's peers with status 200. \<open>DELETE\<close> answers 400 exactly
  when \<open>peerId\<close> is missing or falsy; otherwise it removes the key \<open>peerId\<close> from the room
  and returns the room's peers with status 200. For a body that is not JSON or is
  \<open>null\<close> both handlers throw: they give no response of their own and leave the registry
  as it was.
\<close>

theorem POST_DELETE_400:
  "(\<exists>r. fst (POST now roomId (JsonValue b) registry) = Some r
       \<and> (status r = 400 \<longleftrightarrow>
            body_peerId b \<in> {None, Some JNull, Some (JBool False), Some (JNum 0), Some (JStr '''')}
            \<or> body_name b \<in> {None, Some JNull, Some (JBool False), Some (JNum 0), Some (JStr '''')}))
   \<and> (body_peerId b = Some p \<and> \<not> js_falsy (Some p) \<and> body_name b = Some n \<and> \<not> js_falsy (Some n) \<longrightarrow>
        room_of (snd (POST now roomId (JsonValue b) registry)) roomId
          = AList.update p \<lparr>peerId = p, name = n, updatedAt = now\<rparr> (room_of registry roomId)
        \<and> fst (POST now roomId (JsonValue b) registry)
          = Some (NextResponse_json (Peers (peers_of (snd (POST now roomId (JsonValue b) registry)) roomId)) 200))
   \<and> (\<exists>r. fst (DELETE roomId (JsonValue b) registry) = Some r
       \<and> (status r = 400 \<longleftrightarrow>
            body_peerId b \<in> {None, Some JNull, Some (JBool False), Some (JNum 0), Some (JStr '''')}))
   \<and> (body_peerId b = Some p \<and> \<not> js_falsy (Some p) \<longrightarrow>
        map_of (room_of (snd (DELETE roomId (JsonValue b) registry)) roomId)
          = (map_of (room_of registry roomId))(p := None)
        \<and> fst (DELETE roomId (JsonValue b) registry)
          = Some (NextResponse_json (Peers (peers_of (snd (DELETE roomId (JsonValue b) registry)) roomId)) 200))
   \<and> POST now roomId Rejects registry = (None, registry)
   \<and> POST now roomId JsonNull registry = (None, registry)
   \<and> DELETE roomId Rejects registry = (None, registry)
   \<and> DELETE roomId JsonNull registry = (None, registry)"
proof -
  have throws: "POST now roomId Rejects registry = (None, registry)"
    "POST now roomId JsonNull registry = (None, registry)"
    "DELETE roomId Rejects registry = (None, registry)"
    "DELETE roomId JsonNull registry = (None, registry)"
    by (simp_all add: POST_def DELETE_def)
  have f: "js_falsy x \<longleftrightarrow>
             x \<in> {None, Some JNull, Some (JBool False), Some (JNum 0), Some (JStr '''')}" for x
    using js_falsy_iff [of x] by simp
  show ?thesis
    using POST_status [of now roomId b registry] DELETE_status [of roomId b registry]
      POST_upserts [of b p n now roomId registry] DELETE_removes [of b p roomId registry]
      throws
    unfolding f [symmetric]
    by blast
qed

text \<open>
  C6 (amended) for the body \<open>{peerId: "c", name: "Cy"}\<close> on the example registry, and
  the status 400 for a body whose \<open>peerId\<close> is \<open>0\<close>.
\<close>

theorem POST_DELETE_400_witness:
  "body_peerId demo_body = Some (JStr ''c'') \<and> \<not> js_falsy (Some (JStr ''c''))
   \<and> body_name demo_body = Some (JStr ''Cy'') \<and> \<not> js_falsy (Some (JStr ''Cy''))
   \<and> fst (POST 5 ''r'' (JsonValue demo_body) demo_registry)
        = Some (NextResponse_json
                 (Peers [demo_old, demo_new,
                         \<lparr>peerId = JStr ''c'', name = JStr ''Cy'', updatedAt = 5\<rparr>]) 200)
   \<and> fst (DELETE ''r'' (JsonValue demo_body) demo_registry)
        = Some (NextResponse_json (Peers [demo_old, demo_new]) 200)
   \<and> room_of (snd (POST 5 ''r'' (JsonValue demo_body) demo_registry)) ''r''
          = AList.update (JStr ''c'') \<lparr>peerId = JStr ''c'', name = JStr ''Cy'', updatedAt = 5\<rparr>
              (room_of demo_registry ''r'')
   \<and> map_of (room_of (snd (DELETE ''r'' (JsonValue demo_body) demo_registry)) ''r'')
          = (map_of (room_of demo_registry ''r''))(JStr ''c'' := None)
   \<and> body_peerId \<lparr>body_peerId = Some (JNum 0), body_name = Some (JStr ''Cy'')\<rparr>
        \<in> {None, Some JNull, Some (JBool False), Some (JNum 0), Some (JStr '''')}
   \<and> status (the (fst (POST 5 ''r''
        (JsonValue \<lparr>body_peerId = Some (JNum 0), body_name = Some (JStr ''Cy'')\<rparr>) demo_registry))) = 400"
proof -
  have h: "body_peerId demo_body = Some (JStr ''c'') \<and> \<not> js_falsy (Some (JStr ''c''))
           \<and> body_name demo_body = Some (JStr ''Cy'') \<and> \<not> js_falsy (Some (JStr ''Cy''))"
    by (simp add: demo_body_def)
  have p: "fst (POST 5 ''r'' (JsonValue demo_body) demo_registry)
        = Some (NextResponse_json
                 (Peers [demo_old, demo_new,
                         \<lparr>peerId = JStr ''c'', name = JStr ''Cy'', updatedAt = 5\<rparr>]) 200)"
    by (simp add: POST_def demo_body_def demo_registry_def room_of_def Let_def)
  have d: "fst (DELETE ''r'' (JsonValue demo_body) demo_registry)
        = Some (NextResponse_json (Peers [demo_old, demo_new]) 200)"
    by (simp add: DELETE_def demo_body_def demo_registry_def peers_of_def Let_def)
  have z: "body_peerId \<lparr>body_peerId = Some (JNum 0), body_name = Some (JStr ''Cy'')\<rparr>
        \<in> {None, Some JNull, Some (JBool False), Some (JNum 0), Some (JStr '''')}"
    by simp
  have s: "status (the (fst (POST 5 ''r''
        (JsonValue \<lparr>body_peerId = Some (JNum 0), body_name = Some (JStr ''Cy'')\<rparr>) demo_registry))) = 400"
  proof -
    from POST_DELETE_400 [of 5 "''r''" "\<lparr>body_peerId = Some (JNum 0), body_name = Some (JStr ''Cy'')\<rparr>"
        demo_registry "JNum 0" "JStr ''Cy''"]
    obtain r where "fst (POST 5 ''r''
        (JsonValue \<lparr>body_peerId = Some (JNum 0), body_name = Some (JStr ''Cy'')\<rparr>) demo_registry) = Some r"
      and "status r = 400"
      using z by blast
    then show ?thesis
      by simp
  qed
  show ?thesis
    using h p d z s POST_DELETE_400 [of 5 "''r''" demo_body demo_registry "JStr ''c''" "JStr ''Cy''"]
    by blast
qed

section \<open>The room: roster, sealed transfers and leaving\<close>


lemma keys_set_all: "fst ` set (set_all m us) = fst ` set m \<union> peerId ` set us"
  unfolding set_all_def
  by (induction us arbitrary: m) (auto simp: AList.dom_update)

lemma keyed_set_all:
  "\<forall>(k, u) \<in> set m. k = peerId u \<Longrightarrow> \<forall>(k, u) \<in> set (set_all m us). k = peerId u"
  unfolding set_all_def
proof (induction us arbitrary: m)
  case Nil
  then show ?case by simp
next
  case (Cons a us)
  have "\<forall>(k, u) \<in> set (AList.update (peerId a) a m). k = peerId u"
    using Cons.prems set_update_subset [of "peerId a" a m] by auto
  then show ?case
    using Cons.IH by simp
qed

lemma ids_of_values:
  assumes "\<forall>(k, u) \<in> set m. k = peerId u"
  shows "peerId ` set (map snd m) = fst ` set m"
  using assms by force

lemma values_set_all: "snd ` set (set_all m us) \<subseteq> snd ` set m \<union> set us"
  unfolding set_all_def
proof (induction us arbitrary: m)
  case Nil
  then show ?case by simp
next
  case (Cons a us)
  have 1: "snd ` set (AList.update (peerId a) a m) \<subseteq> insert a (snd ` set m)"
    using set_update_subset [of "peerId a" a m] by auto
  have "snd ` set (foldl (\<lambda>m u. AList.update (peerId u) u m) (AList.update (peerId a) a m) us)
          \<subseteq> snd ` set (AList.update (peerId a) a m) \<union> set us"
    by (rule Cons.IH)
  also have "\<dots> \<subseteq> insert a (snd ` set m) \<union> set us"
    using 1 by blast
  finally show ?case
    by simp
qed

text \<open>
  Claim C9. After a \<open>user-list\<close> message the peer ids of the roster are the peer ids of
  the previous roster together with the peer ids of the listed users other than the
  local peer: no known member is dropped and every listed member is present. Every
  member of the new roster comes from the previous roster or from the list, and the
  ref \<open>usersRef\<close> holds the new roster.
\<close>

theorem user_list_is_union:
  "peerId ` set (users (fst (handleData now (UserList payload) st)))
     = peerId ` set (users st)
       \<union> {peerId u |u. u \<in> set payload \<and> Some (peerId u) \<noteq> myPeerIdRef st}
   \<and> set (users (fst (handleData now (UserList payload) st)))
       \<subseteq> set (users st) \<union> {u. u \<in> set payload \<and> Some (peerId u) \<noteq> myPeerIdRef st}
   \<and> usersRef (fst (handleData now (UserList payload) st))
     = users (fst (handleData now (UserList payload) st))"
proof -
  let ?l = "filter (\<lambda>u. Some (peerId u) \<noteq> myPeerIdRef st) payload"
  let ?m = "set_all (set_all [] (users st)) ?l"
  have "\<forall>(k, u) \<in> set (set_all [] (users st)). k = peerId u"
    by (rule keyed_set_all) simp
  then have "\<forall>(k, u) \<in> set ?m. k = peerId u"
    by (rule keyed_set_all)
  then have "peerId ` set (map snd ?m) = fst ` set ?m"
    by (rule ids_of_values)
  also have "\<dots> = peerId ` set (users st) \<union> peerId ` set ?l"
    by (simp add: keys_set_all)
  also have "peerId ` set ?l = {peerId u |u. u \<in> set payload \<and> Some (peerId u) \<noteq> myPeerIdRef st}"
    by auto
  finally have ids: "peerId ` set (map snd ?m)
      = peerId ` set (users st)
        \<union> {peerId u |u. u \<in> set payload \<and> Some (peerId u) \<noteq> myPeerIdRef st}" .
  have "snd ` set ?m \<subseteq> snd ` set (set_all [] (users st)) \<union> set ?l"
    by (rule values_set_all)
  moreover have "snd ` set (set_all [] (users st)) \<subseteq> set (users st)"
    using values_set_all [of "[]" "users st"] by simp
  ultimately have "set (map snd ?m)
      \<subseteq> set (users st) \<union> {u. u \<in> set payload \<and> Some (peerId u) \<noteq> myPeerIdRef st}"
    by auto
  then show ?thesis
    using ids by (simp add: handleData_def Let_def)
qed

text \<open>C9 on the example room: the list names the local peer and Cy; Bob stays, Cy is added.\<close>

theorem user_list_is_union_witness:
  "users (fst (handleData 0
       (UserList [\<lparr>peerId = ''me'', name = ''Me''\<rparr>, \<lparr>peerId = ''c'', name = ''Cy''\<rparr>]) demo_room))
     = [\<lparr>peerId = ''b'', name = ''Bob''\<rparr>, \<lparr>peerId = ''c'', name = ''Cy''\<rparr>]
   \<and> peerId ` set (users (fst (handleData 0
       (UserList [\<lparr>peerId = ''me'', name = ''Me''\<rparr>, \<lparr>peerId = ''c'', name = ''Cy''\<rparr>]) demo_room)))
     = peerId ` set (users demo_room)
       \<union> {peerId u |u. u \<in> set [\<lparr>peerId = ''me'', name = ''Me''\<rparr>, \<lparr>peerId = ''c'', name = ''Cy''\<rparr>]
                      \<and> Some (peerId u) \<noteq> myPeerIdRef demo_room}"
proof -
  have e: "users (fst (handleData 0
       (UserList [\<lparr>peerId = ''me'', name = ''Me''\<rparr>, \<lparr>peerId = ''c'', name = ''Cy''\<rparr>]) demo_room))
     = [\<lparr>peerId = ''b'', name = ''Bob''\<rparr>, \<lparr>peerId = ''c'', name = ''Cy''\<rparr>]"
    by (simp add: handleData_def demo_room_def set_all_def Let_def)
  show ?thesis
    using e user_list_is_union [of 0 "[\<lparr>peerId = ''me'', name = ''Me''\<rparr>, \<lparr>peerId = ''c'', name = ''Cy''\<rparr>]" demo_room]
    by blast
qed


lemma sealed_at_100_update:
  "sealed_at_100 rf \<Longrightarrow> \<not> completed f \<or> progress f = Num 100 \<Longrightarrow>
   sealed_at_100 (AList.update k f rf)"
  using set_update_subset [of k f rf] by (auto simp: sealed_at_100_def)

lemma sealed_at_100_handleData:
  assumes "sealed_at_100 (receivedFiles st)"
  shows "sealed_at_100 (receivedFiles (fst (handleData now data st)))"
proof (cases data)
  case (Join u)
  then show ?thesis using assms by (simp add: handleData_def add_user_def Let_def)
next
  case (UserList l)
  then show ?thesis using assms by (simp add: handleData_def Let_def)
next
  case (UserJoined u)
  then show ?thesis using assms by (simp add: handleData_def add_user_def Let_def)
next
  case (UserLeft p)
  then show ?thesis using assms by (simp add: handleData_def Let_def split: option.splits)
next
  case (Metadata md)
  then show ?thesis
    using assms
    by (simp add: handleData_def new_transfer_def sealed_at_100_update split: option.splits)
next
  case (Chunk c i n fid)
  show ?thesis
  proof (cases "map_of (receivedFiles st) fid")
    case None
    then show ?thesis using assms Chunk by (simp add: handleData_def)
  next
    case (Some f)
    then show ?thesis
      using assms Chunk by (simp add: handleData_def sealed_at_100_update)
  qed
next
  case (End fid)
  then show ?thesis
    using assms by (simp add: handleData_def sealed_at_100_update split: option.splits)
qed

lemma sealed_at_100_receive_all:
  "sealed_at_100 (receivedFiles st) \<Longrightarrow> sealed_at_100 (receivedFiles (receive_all st evs))"
  unfolding receive_all_def
  by (induction evs arbitrary: st) (auto simp: sealed_at_100_handleData)

lemma sealed_ignores:
  assumes "map_of (receivedFiles st) fid = Some file" and "completed file"
    and "transfer_of data = Some fid"
  shows "handleData now data st = (st, [])"
  using assms by (cases data) (simp_all add: handleData_def)

text \<open>
  Claim C2. In every state in which the transfer of a \<open>fileId\<close> is sealed (\<open>completed\<close>),
  a \<open>metadata\<close>, \<open>chunk\<close> or \<open>end\<close> message with that \<open>fileId\<close> leaves the whole state
  unchanged and has no effect; and when the state was reached by handling messages from
  a component with no received files, the sealed transfer shows progress 100.
\<close>

theorem sealed_transfer_unchanged:
  assumes "map_of (receivedFiles st) fid = Some file" and "completed file"
    and "transfer_of data = Some fid"
  shows "handleData now data st = (st, [])
         \<and> (receivedFiles st0 = [] \<and> st = receive_all st0 evs \<longrightarrow> progress file = Num 100)"
proof -
  have "progress file = Num 100" if "receivedFiles st0 = []" and "st = receive_all st0 evs"
  proof -
    have "sealed_at_100 (receivedFiles st0)"
      using that(1) by (simp add: sealed_at_100_def)
    then have "sealed_at_100 (receivedFiles st)"
      unfolding that(2) by (rule sealed_at_100_receive_all)
    moreover have "(fid, file) \<in> set (receivedFiles st)"
      using assms(1) by (rule map_of_SomeD)
    ultimately show ?thesis
      using assms(2) by (auto simp: sealed_at_100_def)
  qed
  then show ?thesis
    using sealed_ignores [OF assms] by simp
qed

lemma demo_events_sealed:
  "map_of (receivedFiles (receive_all demo_room demo_events)) ''f1'' = Some demo_sealed"
  by (simp add: receive_all_def demo_events_def demo_room_def demo_md_def demo_sealed_def
      handleData_def new_transfer_def percent_def new_Blob_def)

text \<open>C2 for a chunk that arrives after the example transfer was sealed.\<close>

theorem sealed_transfer_unchanged_witness:
  "receivedFiles demo_room = []
   \<and> map_of (receivedFiles (receive_all demo_room demo_events)) ''f1'' = Some demo_sealed
   \<and> completed demo_sealed
   \<and> transfer_of (Chunk [9] 0 0 ''f1'') = Some ''f1''
   \<and> handleData 4 (Chunk [9] 0 0 ''f1'') (receive_all demo_room demo_events)
        = (receive_all demo_room demo_events, [])
   \<and> progress demo_sealed = Num 100"
proof -
  have h1: "receivedFiles demo_room = []"
    by (simp add: demo_room_def)
  have h4: "completed demo_sealed"
    by (simp add: demo_sealed_def)
  have h5: "transfer_of (Chunk [9] 0 0 ''f1'') = Some ''f1''"
    by simp
  show ?thesis
    using h1 demo_events_sealed h4 h5
      sealed_transfer_unchanged [OF demo_events_sealed h4 h5, of 4 demo_room demo_events]
    by blast
qed


text \<open>
  Claim C8 as stated fails. When the \<open>DELETE\<close> request rejects, the handler has notified
  the peers but leaves the roster and the connections as they were. When the request
  resolves, the state \<open>users\<close> is emptied but the ref \<open>usersRef\<close>, the copy of the roster
  that is sent as \<open>user-list\<close> when a connection opens, still holds the old members.
\<close>

theorem leave_rejected_counterexample:
  "myPeerIdRef demo_room = Some ''me''
   \<and> users (fst (handleLeaveRoom ''r'' Rejected demo_room)) = [\<lparr>peerId = ''b'', name = ''Bob''\<rparr>]
   \<and> connectionsRef (fst (handleLeaveRoom ''r'' Rejected demo_room)) = [(''b'', \<lparr>conn_open = True\<rparr>)]
   \<and> snd (handleLeaveRoom ''r'' Rejected demo_room)
        = [Send ''b'' (UserLeft ''me''), FetchDelete ''r'' ''me'', Toast ''Error'']
   \<and> usersRef (fst (handleLeaveRoom ''r'' Resolved demo_room)) = [\<lparr>peerId = ''b'', name = ''Bob''\<rparr>]"
  by (simp add: handleLeaveRoom_def demo_room_def falsy_def broadcastToOthers_def Let_def)

text \<open>
  Claim C8, amended. With the local peer id set and the \<open>DELETE\<close> request resolved
  (whatever its status), leaving sends \<open>user-left\<close> with the own peer id on exactly the
  open connections, then requests the removal from the registry, then closes every
  connection; afterwards the roster state \<open>users\<close> and the connection map are empty.
  The statement is about the state \<open>users\<close> only, not about the ref \<open>usersRef\<close>.
\<close>

theorem leave_resolved:
  assumes "myPeerIdRef st = Some me" and "me \<noteq> []"
  shows "users (fst (handleLeaveRoom roomId Resolved st)) = []
         \<and> connectionsRef (fst (handleLeaveRoom roomId Resolved st)) = []
         \<and> (\<exists>sends closes.
               snd (handleLeaveRoom roomId Resolved st)
                 = sends @ [FetchDelete roomId me] @ closes @ [Toast ''Left Room'']
               \<and> set sends = {Send p (UserLeft me) |p conn.
                                (p, conn) \<in> set (connectionsRef st) \<and> conn_open conn}
               \<and> set closes = {Close p |p. p \<in> fst ` set (connectionsRef st)})"
proof -
  let ?sends = "broadcastToOthers (UserLeft me) None st"
  let ?closes = "map (\<lambda>(p, conn). Close p) (connectionsRef st)"
  have "set ?sends = {Send p (UserLeft me) |p conn.
                       (p, conn) \<in> set (connectionsRef st) \<and> conn_open conn}"
    by (auto simp: broadcastToOthers_def)
  moreover have "set ?closes = {Close p |p. p \<in> fst ` set (connectionsRef st)}"
    by force
  moreover have "snd (handleLeaveRoom roomId Resolved st)
                   = ?sends @ [FetchDelete roomId me] @ ?closes @ [Toast ''Left Room'']"
    using assms by (simp add: handleLeaveRoom_def falsy_def Let_def)
  moreover have "users (fst (handleLeaveRoom roomId Resolved st)) = []"
    and "connectionsRef (fst (handleLeaveRoom roomId Resolved st)) = []"
    using assms by (simp_all add: handleLeaveRoom_def falsy_def Let_def)
  ultimately show ?thesis
    by blast
qed

text \<open>C8 (amended) on the example room.\<close>

theorem leave_resolved_witness:
  "myPeerIdRef demo_room = Some ''me'' \<and> ''me'' \<noteq> []
   \<and> users (fst (handleLeaveRoom ''r'' Resolved demo_room)) = []
   \<and> connectionsRef (fst (handleLeaveRoom ''r'' Resolved demo_room)) = []
   \<and> snd (handleLeaveRoom ''r'' Resolved demo_room)
        = [Send ''b'' (UserLeft ''me''), FetchDelete ''r'' ''me'', Close ''b'', Toast ''Left Room'']"
proof -
  have h1: "myPeerIdRef demo_room = Some ''me''"
    by (simp add: demo_room_def)
  have h2: "''me'' \<noteq> []"
    by simp
  have e: "snd (handleLeaveRoom ''r'' Resolved demo_room)
        = [Send ''b'' (UserLeft ''me''), FetchDelete ''r'' ''me'', Close ''b'', Toast ''Left Room'']"
    by (simp add: handleLeaveRoom_def demo_room_def falsy_def broadcastToOthers_def Let_def)
  show ?thesis
    using h1 h2 e leave_resolved [OF h1 h2, of "''r''"] by blast
qed


section \<open>File transfer: the sender's stream and the receiver's reassembly\<close>


lemma readSlice_step:
  "readable start \<Longrightarrow>
   readSlice readable file fid start =
     Chunk (take CHUNK_SIZE (drop start (file_bytes file))) 0 0 fid #
       (if start + length (take CHUNK_SIZE (drop start (file_bytes file))) < length (file_bytes file)
        then readSlice readable file fid
               (start + length (take CHUNK_SIZE (drop start (file_bytes file))))
        else [End fid])"
  by (subst readSlice.simps) (simp add: Let_def)

lemma take_drop_rest:
  "\<not> start + length (take n (drop start bs)) < length bs \<Longrightarrow> take n (drop start bs) = drop start bs"
  by simp

lemma take_drop_next:
  "take n (drop start bs) @ drop (start + length (take n (drop start bs))) bs = drop start bs"
proof -
  have "drop (start + length (take n (drop start bs))) bs
          = drop (length (take n (drop start bs))) (drop start bs)"
    by (simp add: add.commute)
  also have "\<dots> = drop n (drop start bs)"
    by (cases "n \<le> length (drop start bs)") (simp_all add: min_def)
  finally show ?thesis
    by (simp only: append_take_drop_id)
qed

lemma chunk_payloads_stream [simp]:
  "chunk_payloads (map (\<lambda>c. Chunk c 0 0 fid) cs @ [End fid]) = cs"
  by (induction cs) simp_all

lemma readSlice_chunks:
  assumes "\<forall>n. readable n"
  shows "\<exists>cs. readSlice readable fl fid start = map (\<lambda>c. Chunk c 0 0 fid) cs @ [End fid]
           \<and> cs \<noteq> []
           \<and> concat cs = drop start (file_bytes fl)
           \<and> (\<forall>c \<in> set cs. length c \<le> CHUNK_SIZE)
           \<and> (start < length (file_bytes fl) \<longrightarrow> (\<forall>c \<in> set cs. c \<noteq> []))"
  using assms
proof (induction readable fl fid start rule: readSlice.induct)
  case (1 readable fl fid start)
  let ?chunk = "take CHUNK_SIZE (drop start (file_bytes fl))"
  let ?offset = "start + length ?chunk"
  have r: "readable start"
    using "1.prems" by simp
  show ?case
  proof (cases "?offset < length (file_bytes fl)")
    case True
    have step: "readSlice readable fl fid start
                  = Chunk ?chunk 0 0 fid # readSlice readable fl fid ?offset"
      using readSlice_step [of readable start fl fid] r True by (simp only: if_True)
    from "1.IH" [OF _ refl refl True "1.prems"] r
    obtain cs where cs: "readSlice readable fl fid ?offset = map (\<lambda>c. Chunk c 0 0 fid) cs @ [End fid]"
      and c1: "concat cs = drop ?offset (file_bytes fl)"
      and c2: "\<forall>c \<in> set cs. length c \<le> CHUNK_SIZE"
      and c3: "\<forall>c \<in> set cs. c \<noteq> []"
      using True by auto
    have ne: "?chunk \<noteq> []"
      using True by (auto simp: CHUNK_SIZE_def)
    have "readSlice readable fl fid start = map (\<lambda>c. Chunk c 0 0 fid) (?chunk # cs) @ [End fid]"
      unfolding step cs by simp
    moreover have "concat (?chunk # cs) = drop start (file_bytes fl)"
      using c1 take_drop_next [of CHUNK_SIZE start "file_bytes fl"] by simp
    moreover have "\<forall>c \<in> set (?chunk # cs). length c \<le> CHUNK_SIZE"
      using c2 by simp
    moreover have "\<forall>c \<in> set (?chunk # cs). c \<noteq> []"
      using c3 ne by simp
    ultimately show ?thesis
      by blast
  next
    case False
    have step: "readSlice readable fl fid start = [Chunk ?chunk 0 0 fid, End fid]"
      using readSlice_step [of readable start fl fid] r False by (simp only: if_False)
    have "?chunk = drop start (file_bytes fl)"
      using False by (rule take_drop_rest)
    moreover have "start < length (file_bytes fl) \<longrightarrow> ?chunk \<noteq> []"
      by (simp add: CHUNK_SIZE_def)
    moreover have "readSlice readable fl fid start = map (\<lambda>c. Chunk c 0 0 fid) [?chunk] @ [End fid]"
      unfolding step by simp
    ultimately show ?thesis
      by (intro exI [of _ "[?chunk]"]) simp
  qed
qed


lemma receive_all_Nil [simp]: "receive_all st [] = st"
  by (simp add: receive_all_def)

lemma receive_all_Cons [simp]:
  "receive_all st ((now, data) # evs) = receive_all (fst (handleData now data st)) evs"
  by (simp add: receive_all_def)

lemma receive_all_append:
  "receive_all st (evs @ evs') = receive_all (receive_all st evs) evs'"
  by (simp add: receive_all_def)

lemma handleData_Metadata_new:
  "map_of (receivedFiles st) (fileId md) = None \<Longrightarrow>
   map_of (receivedFiles (fst (handleData now (Metadata md) st))) (fileId md)
     = Some (new_transfer now md)"
  by (simp add: handleData_def AList.update_conv')

lemma handleData_Chunk_receiving:
  "map_of (receivedFiles st) fid = Some f \<Longrightarrow> \<not> completed f \<Longrightarrow>
   map_of (receivedFiles (fst (handleData now (Chunk c i n fid) st))) fid
     = Some (f\<lparr>chunks := chunks f @ [c],
               receivedSize := receivedSize f + length c,
               progress := percent (receivedSize f + length c) (md_size (metadata f))\<rparr>)"
  by (simp add: handleData_def AList.update_conv')

lemma handleData_End_receiving:
  "map_of (receivedFiles st) fid = Some f \<Longrightarrow> \<not> completed f \<Longrightarrow>
   map_of (receivedFiles (fst (handleData now (End fid) st))) fid
     = Some (f\<lparr>downloadUrl := Some (new_Blob (chunks f) (md_type (metadata f))),
               completed := True, progress := Num 100, completedAt := Some now\<rparr>)"
  by (simp add: handleData_def AList.update_conv')

lemma receive_chunks:
  assumes "map_of (receivedFiles st) fid = Some f" and "\<not> completed f"
    and "map snd evs = map (\<lambda>c. Chunk c 0 0 fid) cs"
  shows "map_of (receivedFiles (receive_all st evs)) fid
           = Some (f\<lparr>chunks := chunks f @ cs,
                     receivedSize := receivedSize f + length (concat cs),
                     progress := (if cs = [] then progress f
                                  else percent (receivedSize f + length (concat cs))
                                         (md_size (metadata f)))\<rparr>)"
  using assms
proof (induction cs arbitrary: st f evs)
  case Nil
  then show ?case by simp
next
  case (Cons c cs)
  from Cons.prems(3) obtain now evs' where evs: "evs = (now, Chunk c 0 0 fid) # evs'"
    and evs': "map snd evs' = map (\<lambda>c. Chunk c 0 0 fid) cs"
    by (cases evs) auto
  let ?f1 = "f\<lparr>chunks := chunks f @ [c],
               receivedSize := receivedSize f + length c,
               progress := percent (receivedSize f + length c) (md_size (metadata f))\<rparr>"
  let ?st1 = "fst (handleData now (Chunk c 0 0 fid) st)"
  have 1: "map_of (receivedFiles ?st1) fid = Some ?f1"
    using Cons.prems(1,2) by (rule handleData_Chunk_receiving)
  have 2: "\<not> completed ?f1"
    using Cons.prems(2) by simp
  show ?case
    unfolding evs receive_all_Cons
    by (simp add: Cons.IH [OF 1 2 evs'] add.assoc)
qed


lemma sendSingleFile_stream:
  assumes "sendSingleFile myPeerId myName connections now (\<lambda>_. True) fl isResend existingFileId
             = Some (Metadata md # rest)"
  shows "\<exists>cs. rest = map (\<lambda>c. Chunk c 0 0 (fileId md)) cs @ [End (fileId md)]
           \<and> cs \<noteq> []
           \<and> concat cs = file_bytes fl
           \<and> (\<forall>c \<in> set cs. length c \<le> CHUNK_SIZE)
           \<and> (file_bytes fl \<noteq> [] \<longrightarrow> (\<forall>c \<in> set cs. c \<noteq> []))"
    and "md_size md = length (file_bytes fl)"
    and "md_type md = file_type fl"
proof -
  have rest: "rest = readSlice (\<lambda>_. True) fl (fileId md) 0"
    and "md_size md = length (file_bytes fl) \<and> md_type md = file_type fl"
    using assms by (auto simp: sendSingleFile_def Let_def split: if_splits)
  then show "md_size md = length (file_bytes fl)" and "md_type md = file_type fl"
    by simp_all
  show "\<exists>cs. rest = map (\<lambda>c. Chunk c 0 0 (fileId md)) cs @ [End (fileId md)]
           \<and> cs \<noteq> []
           \<and> concat cs = file_bytes fl
           \<and> (\<forall>c \<in> set cs. length c \<le> CHUNK_SIZE)
           \<and> (file_bytes fl \<noteq> [] \<longrightarrow> (\<forall>c \<in> set cs. c \<noteq> []))"
    unfolding rest
    using readSlice_chunks [of "\<lambda>_. True" fl "fileId md" 0] by auto
qed

lemma prefix_receiving:
  assumes evs: "map snd evs = Metadata md # map (\<lambda>c. Chunk c 0 0 (fileId md)) cs @ [End (fileId md)]"
    and fresh: "map_of (receivedFiles st) (fileId md) = None"
    and j: "j \<le> length cs"
  shows "map_of (receivedFiles (receive_all st (take (Suc j) evs))) (fileId md)
           = Some ((new_transfer (fst (hd evs)) md)
                     \<lparr>chunks := take j cs,
                      receivedSize := length (concat (take j cs)),
                      progress := (if j = 0 then Num 0
                                   else percent (length (concat (take j cs))) (md_size md))\<rparr>)"
proof -
  from evs obtain t0 evs1 where e: "evs = (t0, Metadata md) # evs1"
    and e1: "map snd evs1 = map (\<lambda>c. Chunk c 0 0 (fileId md)) cs @ [End (fileId md)]"
    by (cases evs) auto
  let ?st1 = "fst (handleData t0 (Metadata md) st)"
  have 1: "map_of (receivedFiles ?st1) (fileId md) = Some (new_transfer t0 md)"
    using fresh by (rule handleData_Metadata_new)
  have 2: "\<not> completed (new_transfer t0 md)"
    by (simp add: new_transfer_def)
  have "map snd (take j evs1) = take j (map snd evs1)"
    by (simp add: take_map)
  also have "\<dots> = map (\<lambda>c. Chunk c 0 0 (fileId md)) (take j cs)"
    using j by (simp add: e1 take_map)
  finally have 3: "map snd (take j evs1) = map (\<lambda>c. Chunk c 0 0 (fileId md)) (take j cs)" .
  show ?thesis
    unfolding e using receive_chunks [OF 1 2 3] j
    by (auto simp: new_transfer_def)
qed

lemma full_transfer:
  assumes evs: "map snd evs = Metadata md # map (\<lambda>c. Chunk c 0 0 (fileId md)) cs @ [End (fileId md)]"
    and fresh: "map_of (receivedFiles st) (fileId md) = None"
  shows "map_of (receivedFiles (receive_all st evs)) (fileId md)
           = Some ((new_transfer (fst (hd evs)) md)
                     \<lparr>chunks := cs,
                      receivedSize := length (concat cs),
                      downloadUrl := Some (new_Blob cs (md_type md)),
                      completed := True,
                      progress := Num 100,
                      completedAt := Some (fst (last evs))\<rparr>)"
proof -
  have len: "length evs = length cs + 2"
    using arg_cong [OF evs, of length] by simp
  then have ne: "evs \<noteq> []"
    by auto
  have split: "evs = take (Suc (length cs)) evs @ [last evs]"
  proof -
    have "evs = butlast evs @ [last evs]"
      using ne by simp
    moreover have "butlast evs = take (Suc (length cs)) evs"
      using len by (simp add: butlast_conv_take)
    ultimately show ?thesis by simp
  qed
  have "snd (last evs) = last (map snd evs)"
    using ne by (simp add: last_map)
  then have l: "last evs = (fst (last evs), End (fileId md))"
    by (simp add: evs prod_eq_iff)
  let ?st1 = "receive_all st (take (Suc (length cs)) evs)"
  let ?f = "(new_transfer (fst (hd evs)) md)
              \<lparr>chunks := take (length cs) cs,
               receivedSize := length (concat (take (length cs) cs)),
               progress := (if length cs = 0 then Num 0
                            else percent (length (concat (take (length cs) cs))) (md_size md))\<rparr>"
  have 1: "map_of (receivedFiles ?st1) (fileId md) = Some ?f"
    using evs fresh by (rule prefix_receiving) simp
  have 2: "\<not> completed ?f"
    by (simp add: new_transfer_def)
  have "receive_all st evs = fst (handleData (fst (last evs)) (End (fileId md)) ?st1)"
    by (subst split, subst l) (simp add: receive_all_append)
  then show ?thesis
    using handleData_End_receiving [OF 1 2, of "fst (last evs)"]
    by (simp add: new_transfer_def)
qed

lemma concat_take_le: "length (concat (take j cs)) \<le> length (concat cs)"
proof -
  have "concat cs = concat (take j cs) @ concat (drop j cs)"
    by (metis append_take_drop_id concat_append)
  then show ?thesis
    by (metis le_add1 length_append)
qed

lemma concat_take_mono: "i \<le> j \<Longrightarrow> length (concat (take i cs)) \<le> length (concat (take j cs))"
  using concat_take_le [of i "take j cs"] by (simp add: min_def)

lemma concat_take_less:
  assumes "\<forall>c \<in> set cs. c \<noteq> []" and "j < length cs"
  shows "length (concat (take j cs)) < length (concat cs)"
proof -
  have "concat cs = concat (take j cs) @ concat (drop j cs)"
    by (metis append_take_drop_id concat_append)
  moreover have "drop j cs \<noteq> []"
    using assms(2) by simp
  then have "concat (drop j cs) \<noteq> []"
    using assms(1) by (metis concat_eq_Nil_conv hd_in_set in_set_dropD)
  ultimately show ?thesis
    by (metis add_diff_cancel_left' length_append length_greater_0_conv zero_less_diff)
qed


section \<open>File transfer: reassembly, byte counts and progress\<close>


lemma prefix_entry:
  assumes evs: "map snd evs = Metadata md # map (\<lambda>c. Chunk c 0 0 (fileId md)) cs @ [End (fileId md)]"
    and fresh: "map_of (receivedFiles st) (fileId md) = None"
    and k: "k \<le> length evs"
    and f: "map_of (receivedFiles (receive_all st (take k evs))) (fileId md) = Some f"
  shows "1 \<le> k"
    and "metadata f = md"
    and "chunks f = take (k - 1) cs"
    and "receivedSize f = length (concat (take (k - 1) cs))"
    and "completed f = (k = length evs)"
    and "progress f = (if k = length evs then Num 100
                       else if k = 1 then Num 0
                       else percent (length (concat (take (k - 1) cs))) (md_size md))"
    and "downloadUrl f = (if k = length evs then Some (new_Blob cs (md_type md)) else None)"
proof -
  have len: "length evs = length cs + 2"
    using arg_cong [OF evs, of length] by simp
  show k1: "1 \<le> k"
  proof (rule ccontr)
    assume "\<not> 1 \<le> k"
    then have "k = 0" by simp
    then show False using f fresh by simp
  qed
  consider (mid) j where "k = Suc j" "j \<le> length cs" | (full) "k = length evs"
    using k k1 len by (cases k) (auto simp: le_Suc_eq)
  then have "metadata f = md
    \<and> chunks f = take (k - 1) cs
    \<and> receivedSize f = length (concat (take (k - 1) cs))
    \<and> completed f = (k = length evs)
    \<and> progress f = (if k = length evs then Num 100
                       else if k = 1 then Num 0
                       else percent (length (concat (take (k - 1) cs))) (md_size md))
    \<and> downloadUrl f = (if k = length evs then Some (new_Blob cs (md_type md)) else None)"
  proof cases
    case mid
    have "Some f = Some ((new_transfer (fst (hd evs)) md)
                     \<lparr>chunks := take j cs,
                      receivedSize := length (concat (take j cs)),
                      progress := (if j = 0 then Num 0
                                   else percent (length (concat (take j cs))) (md_size md))\<rparr>)"
      using prefix_receiving [OF evs fresh mid(2)] f mid(1) by simp
    then show ?thesis
      using mid len by (auto simp: new_transfer_def)
  next
    case full
    have "Some f = Some ((new_transfer (fst (hd evs)) md)
                     \<lparr>chunks := cs,
                      receivedSize := length (concat cs),
                      downloadUrl := Some (new_Blob cs (md_type md)),
                      completed := True,
                      progress := Num 100,
                      completedAt := Some (fst (last evs))\<rparr>)"
      using full_transfer [OF evs fresh] f full by simp
    then show ?thesis
      using full len by (auto simp: new_transfer_def)
  qed
  then show "metadata f = md"
    and "chunks f = take (k - 1) cs"
    and "receivedSize f = length (concat (take (k - 1) cs))"
    and "completed f = (k = length evs)"
    and "progress f = (if k = length evs then Num 100
                       else if k = 1 then Num 0
                       else percent (length (concat (take (k - 1) cs))) (md_size md))"
    and "downloadUrl f = (if k = length evs then Some (new_Blob cs (md_type md)) else None)"
    by blast+
qed

lemma percent_mono: "0 < d \<Longrightarrow> a \<le> b \<Longrightarrow> js_le (percent a d) (percent b d)"
  by (simp add: percent_def divide_right_mono)

lemma percent_nonneg: "0 < d \<Longrightarrow> js_le (Num 0) (percent a d)"
  by (simp add: percent_def)

lemma percent_le_100: "0 < d \<Longrightarrow> a \<le> d \<Longrightarrow> js_le (percent a d) (Num 100)"
  by (simp add: percent_def divide_le_eq)

lemma percent_eq_100: "0 < d \<Longrightarrow> (percent a d = Num 100) = (a = d)"
  by (simp add: percent_def divide_eq_eq)

lemma scenario_A_stream:
  assumes L: "length (file_bytes fl) = 150000"
  shows "map length (chunk_payloads (readSlice (\<lambda>_. True) fl fid 0)) = [65536, 65536, 18928]"
proof -
  have 1: "readSlice (\<lambda>_. True) fl fid 0
             = Chunk (take 65536 (file_bytes fl)) 0 0 fid # readSlice (\<lambda>_. True) fl fid 65536"
    by (subst readSlice_step) (simp_all add: CHUNK_SIZE_def L)
  have 2: "readSlice (\<lambda>_. True) fl fid 65536
             = Chunk (take 65536 (drop 65536 (file_bytes fl))) 0 0 fid
               # readSlice (\<lambda>_. True) fl fid 131072"
    by (subst readSlice_step) (simp_all add: CHUNK_SIZE_def L)
  have 3: "readSlice (\<lambda>_. True) fl fid 131072
             = [Chunk (take 65536 (drop 131072 (file_bytes fl))) 0 0 fid, End fid]"
    by (subst readSlice_step) (simp_all add: CHUNK_SIZE_def L)
  show ?thesis
    by (simp add: 1 2 3 L)
qed

lemma handleData_other:
  assumes "transfer_of data \<noteq> Some fid"
  shows "map_of (receivedFiles (fst (handleData now data st))) fid = map_of (receivedFiles st) fid"
proof (cases data)
  case (Join u)
  then show ?thesis by (simp add: handleData_def add_user_def Let_def)
next
  case (UserList l)
  then show ?thesis by (simp add: handleData_def Let_def)
next
  case (UserJoined u)
  then show ?thesis by (simp add: handleData_def add_user_def Let_def)
next
  case (UserLeft p)
  then show ?thesis by (simp add: handleData_def Let_def split: option.splits)
next
  case (Metadata md)
  then show ?thesis
    using assms by (simp add: handleData_def AList.update_conv' split: option.splits)
next
  case (Chunk c i n other)
  then show ?thesis
    using assms by (simp add: handleData_def AList.update_conv' split: option.splits)
next
  case (End other)
  then show ?thesis
    using assms by (simp add: handleData_def AList.update_conv' split: option.splits)
qed

lemma handleData_same:
  assumes "transfer_of data = Some fid"
    and "map_of (receivedFiles st) fid = map_of (receivedFiles st') fid"
  shows "map_of (receivedFiles (fst (handleData now data st))) fid
           = map_of (receivedFiles (fst (handleData now data st'))) fid"
  using assms
  by (cases data) (auto simp: handleData_def AList.update_conv' split: option.splits)

lemma lookup_for_transfer:
  "map_of (receivedFiles st) fid = map_of (receivedFiles st') fid \<Longrightarrow>
   map_of (receivedFiles (receive_all st evs)) fid
     = map_of (receivedFiles (receive_all st' (for_transfer fid evs))) fid"
proof (induction evs arbitrary: st st')
  case Nil
  then show ?case by (simp add: for_transfer_def)
next
  case (Cons e evs)
  obtain now data where e: "e = (now, data)" by (cases e)
  show ?case
  proof (cases "transfer_of data = Some fid")
    case True
    have "map_of (receivedFiles (fst (handleData now data st))) fid
            = map_of (receivedFiles (fst (handleData now data st'))) fid"
      using True Cons.prems by (rule handleData_same)
    from Cons.IH [OF this] show ?thesis
      using True by (simp add: e for_transfer_def)
  next
    case False
    have "map_of (receivedFiles (fst (handleData now data st))) fid
            = map_of (receivedFiles st') fid"
      using handleData_other [OF False] Cons.prems by simp
    from Cons.IH [OF this] show ?thesis
      using False by (simp add: e for_transfer_def)
  qed
qed

lemma filter_take_prefix:
  "filter P (take k xs) = take (length (filter P (take k xs))) (filter P xs)"
proof -
  have "filter P xs = filter P (take k xs) @ filter P (drop k xs)"
    by (metis append_take_drop_id filter_append)
  then show ?thesis
    by simp
qed

lemma filter_take_mono:
  "j \<le> k \<Longrightarrow> length (filter P (take j xs)) \<le> length (filter P (take k xs))"
proof -
  assume "j \<le> k"
  then have "take j xs = take j (take k xs)"
    by (simp add: min_def)
  then have "filter P (take j xs) = filter P (take j (take k xs))"
    by simp
  also have "\<dots> = take (length (filter P (take j (take k xs)))) (filter P (take k xs))"
    by (rule filter_take_prefix)
  finally have "length (filter P (take j xs))
      = length (take (length (filter P (take j (take k xs)))) (filter P (take k xs)))"
    by simp
  then show ?thesis
    by simp
qed

lemma End_in_prefix:
  assumes "n \<le> length cs + 2"
  shows "End fid \<in> set (take n (Metadata md # map (\<lambda>c. Chunk c 0 0 fid) cs @ [End fid]))
           \<longleftrightarrow> n = length cs + 2"
proof (cases "n = length cs + 2")
  case True
  then show ?thesis by simp
next
  case False
  then have "n \<le> length (Metadata md # map (\<lambda>c. Chunk c 0 0 fid) cs)"
    using assms by simp
  then have "take n (Metadata md # map (\<lambda>c. Chunk c 0 0 fid) cs @ [End fid])
               = take n (Metadata md # map (\<lambda>c. Chunk c 0 0 fid) cs)"
    by (metis append_Cons take_append diff_is_0_eq take_0 append_Nil2)
  moreover have "End fid \<notin> set (Metadata md # map (\<lambda>c. Chunk c 0 0 fid) cs)"
    by auto
  ultimately show ?thesis
    using False by (metis in_set_takeD)
qed

lemma isolated_prefix:
  assumes iso: "map snd (for_transfer (fileId md) evs)
                  = Metadata md # map (\<lambda>c. Chunk c 0 0 (fileId md)) cs @ [End (fileId md)]"
    and fresh: "map_of (receivedFiles st) (fileId md) = None"
    and f: "map_of (receivedFiles (receive_all st (take k evs))) (fileId md) = Some f"
  shows "\<exists>n. 1 \<le> n \<and> n \<le> length cs + 2
           \<and> n = length (for_transfer (fileId md) (take k evs))
           \<and> (n = length cs + 2 \<longleftrightarrow> End (fileId md) \<in> snd ` set (take k evs))
           \<and> metadata f = md
           \<and> chunks f = take (n - 1) cs
           \<and> receivedSize f = length (concat (take (n - 1) cs))
           \<and> completed f = (n = length cs + 2)
           \<and> progress f = (if n = length cs + 2 then Num 100
                            else if n = 1 then Num 0
                            else percent (length (concat (take (n - 1) cs))) (md_size md))
           \<and> downloadUrl f = (if n = length cs + 2 then Some (new_Blob cs (md_type md)) else None)"
proof -
  let ?F = "for_transfer (fileId md) evs"
  let ?n = "length (for_transfer (fileId md) (take k evs))"
  have len: "length ?F = length cs + 2"
    using arg_cong [OF iso, of length] by simp
  have pre: "for_transfer (fileId md) (take k evs) = take ?n ?F"
    unfolding for_transfer_def by (rule filter_take_prefix)
  have n: "?n \<le> length ?F"
    using arg_cong [OF pre, of length] by simp
  have "map_of (receivedFiles (receive_all st (take k evs))) (fileId md)
          = map_of (receivedFiles (receive_all st (for_transfer (fileId md) (take k evs)))) (fileId md)"
    by (rule lookup_for_transfer) simp
  then have f': "map_of (receivedFiles (receive_all st (take ?n ?F))) (fileId md) = Some f"
    using f pre by simp
  note e = prefix_entry [OF iso fresh n f']
  have "End (fileId md) \<in> snd ` set (take k evs)
          \<longleftrightarrow> End (fileId md) \<in> snd ` set (for_transfer (fileId md) (take k evs))"
    by (force simp: for_transfer_def)
  also have "\<dots> \<longleftrightarrow> End (fileId md) \<in> set (take ?n (map snd ?F))"
    by (simp add: pre [symmetric] take_map)
  also have "\<dots> \<longleftrightarrow> ?n = length cs + 2"
    unfolding iso using n len by (intro End_in_prefix) simp
  finally have E: "(?n = length cs + 2) \<longleftrightarrow> End (fileId md) \<in> snd ` set (take k evs)"
    by simp
  show ?thesis
    using e E n len by (intro exI [of _ ?n]) simp
qed


lemma take_all_iff_chunks: "(take m cs = cs) = (length cs \<le> m)"
  by (metis take_all_iff)

lemma isolated_stream:
  assumes send: "sendSingleFile myPeerId myName connections now (\<lambda>_. True) fl isResend existingFileId
                   = Some (Metadata md # rest)"
    and iso: "map snd (for_transfer (fileId md) evs) = Metadata md # rest"
  obtains cs where "rest = map (\<lambda>c. Chunk c 0 0 (fileId md)) cs @ [End (fileId md)]"
    and "chunk_payloads rest = cs"
    and "map snd (for_transfer (fileId md) evs)
           = Metadata md # map (\<lambda>c. Chunk c 0 0 (fileId md)) cs @ [End (fileId md)]"
    and "concat cs = file_bytes fl"
    and "md_size md = length (concat cs)"
    and "cs \<noteq> []"
    and "\<forall>c \<in> set cs. length c \<le> CHUNK_SIZE"
    and "file_bytes fl \<noteq> [] \<longrightarrow> (\<forall>c \<in> set cs. c \<noteq> [])"
proof -
  from sendSingleFile_stream(1) [OF send]
  obtain cs where rest: "rest = map (\<lambda>c. Chunk c 0 0 (fileId md)) cs @ [End (fileId md)]"
    and ne: "cs \<noteq> []"
    and cat: "concat cs = file_bytes fl"
    and small: "\<forall>c \<in> set cs. length c \<le> CHUNK_SIZE"
    and full: "file_bytes fl \<noteq> [] \<longrightarrow> (\<forall>c \<in> set cs. c \<noteq> [])"
    by blast
  have 1: "chunk_payloads rest = cs"
    by (simp add: rest)
  have 2: "map snd (for_transfer (fileId md) evs)
           = Metadata md # map (\<lambda>c. Chunk c 0 0 (fileId md)) cs @ [End (fileId md)]"
    using iso rest by simp
  have 3: "md_size md = length (concat cs)"
    using sendSingleFile_stream(2) [OF send] cat by simp
  show ?thesis
    by (rule that [OF rest 1 2 cat 3 ne small full])
qed

text \<open>
  Claim C1, amended. \<open>sendSingleFile\<close> sends a file whose reads all succeed. The receiver
  has no entry for the \<open>fileId\<close> beforehand, and among the messages it handles, in order
  and mixed with any others, those that carry this \<open>fileId\<close> are exactly the messages of
  this one send. Then the transfer ends completed and its artifact is the blob of the
  concatenation of the chunk payloads in send order; that concatenation is the file's
  bytes, so the artifact has the file's size. No chunk is longer than 65536 bytes, and a
  file of 150000 bytes is sent as chunks of 65536, 65536 and 18928 bytes.
\<close>

theorem chunk_reassembly:
  assumes send: "sendSingleFile myPeerId myName connections now (\<lambda>_. True) fl isResend existingFileId
                   = Some (Metadata md # rest)"
    and iso: "map snd (for_transfer (fileId md) evs) = Metadata md # rest"
    and fresh: "map_of (receivedFiles st) (fileId md) = None"
  shows "(\<exists>f. map_of (receivedFiles (receive_all st evs)) (fileId md) = Some f
            \<and> completed f
            \<and> downloadUrl f = Some \<lparr>blob_bytes = concat (chunk_payloads rest),
                                     blob_type = file_type fl\<rparr>
            \<and> chunks f = chunk_payloads rest
            \<and> receivedSize f = length (file_bytes fl))
         \<and> concat (chunk_payloads rest) = file_bytes fl
         \<and> length (concat (chunk_payloads rest)) = length (file_bytes fl)
         \<and> (\<forall>c \<in> set (chunk_payloads rest). length c \<le> CHUNK_SIZE)
         \<and> (length (file_bytes fl) = 150000 \<longrightarrow>
              map length (chunk_payloads rest) = [65536, 65536, 18928])"
proof -
  from isolated_stream [OF send iso]
  obtain cs where cs: "chunk_payloads rest = cs"
    and iso': "map snd (for_transfer (fileId md) evs)
           = Metadata md # map (\<lambda>c. Chunk c 0 0 (fileId md)) cs @ [End (fileId md)]"
    and cat: "concat cs = file_bytes fl"
    and small: "\<forall>c \<in> set cs. length c \<le> CHUNK_SIZE"
    by metis
  have r: "rest = readSlice (\<lambda>_. True) fl (fileId md) 0"
    using send by (auto simp: sendSingleFile_def Let_def split: if_splits)
  have A: "length (file_bytes fl) = 150000 \<longrightarrow>
             map length (chunk_payloads rest) = [65536, 65536, 18928]"
    unfolding r using scenario_A_stream by blast
  let ?F = "for_transfer (fileId md) evs"
  have "map_of (receivedFiles (receive_all st evs)) (fileId md)
          = map_of (receivedFiles (receive_all st ?F)) (fileId md)"
    by (rule lookup_for_transfer) simp
  also have "\<dots> = Some ((new_transfer (fst (hd ?F)) md)
                     \<lparr>chunks := cs,
                      receivedSize := length (concat cs),
                      downloadUrl := Some (new_Blob cs (md_type md)),
                      completed := True,
                      progress := Num 100,
                      completedAt := Some (fst (last ?F))\<rparr>)"
    using iso' fresh by (rule full_transfer)
  finally have "\<exists>f. map_of (receivedFiles (receive_all st evs)) (fileId md) = Some f
            \<and> completed f
            \<and> downloadUrl f = Some \<lparr>blob_bytes = concat (chunk_payloads rest),
                                     blob_type = file_type fl\<rparr>
            \<and> chunks f = chunk_payloads rest
            \<and> receivedSize f = length (file_bytes fl)"
    using sendSingleFile_stream(3) [OF send] cat
    by (simp add: cs new_Blob_def new_transfer_def)
  then show ?thesis
    using A cat small by (simp add: cs)
qed

text \<open>
  Claim C3, amended. \<open>sendSingleFile\<close> sends a file whose reads all succeed. The receiver
  has no entry for the \<open>fileId\<close> beforehand, and among the messages it handles, in order
  and mixed with any others, those that carry this \<open>fileId\<close> are exactly the messages of
  this one send. Then after every prefix of the handled messages \<open>receivedSize\<close> is at
  most \<open>metadata.size\<close>, the transfer is completed exactly when its \<open>end\<close> has been
  handled, and then \<open>receivedSize\<close> equals \<open>metadata.size\<close>.
\<close>

theorem received_bytes_within_size:
  assumes send: "sendSingleFile myPeerId myName connections now (\<lambda>_. True) fl isResend existingFileId
                   = Some (Metadata md # rest)"
    and iso: "map snd (for_transfer (fileId md) evs) = Metadata md # rest"
    and fresh: "map_of (receivedFiles st) (fileId md) = None"
    and f: "map_of (receivedFiles (receive_all st (take k evs))) (fileId md) = Some f"
  shows "receivedSize f \<le> md_size (metadata f)
         \<and> (completed f \<longrightarrow> receivedSize f = md_size (metadata f))
         \<and> (completed f \<longleftrightarrow> End (fileId md) \<in> snd ` set (take k evs))"
proof -
  from isolated_stream [OF send iso]
  obtain cs where iso': "map snd (for_transfer (fileId md) evs)
           = Metadata md # map (\<lambda>c. Chunk c 0 0 (fileId md)) cs @ [End (fileId md)]"
    and size: "md_size md = length (concat cs)"
    by metis
  from isolated_prefix [OF iso' fresh f]
  obtain n where n: "n \<le> length cs + 2"
    and E: "n = length cs + 2 \<longleftrightarrow> End (fileId md) \<in> snd ` set (take k evs)"
    and m: "metadata f = md"
    and r: "receivedSize f = length (concat (take (n - 1) cs))"
    and c: "completed f = (n = length cs + 2)"
    by blast
  have "receivedSize f \<le> md_size (metadata f)"
    using m r size concat_take_le [of "n - 1" cs] by simp
  moreover have "completed f \<longrightarrow> receivedSize f = md_size (metadata f)"
    using m r c size by simp
  ultimately show ?thesis
    using c E by simp
qed

lemma room_progress:
  assumes nonempty: "file_bytes fl \<noteq> []"
    and send: "sendSingleFile myPeerId myName connections now (\<lambda>_. True) fl isResend existingFileId
                   = Some (Metadata md # rest)"
    and iso: "map snd (for_transfer (fileId md) evs) = Metadata md # rest"
    and fresh: "map_of (receivedFiles st) (fileId md) = None"
    and jk: "j \<le> k"
    and fj: "map_of (receivedFiles (receive_all st (take j evs))) (fileId md) = Some fj"
    and fk: "map_of (receivedFiles (receive_all st (take k evs))) (fileId md) = Some fk"
  shows "js_le (progress fj) (progress fk)
         \<and> (progress fk = Num 100 \<longleftrightarrow> chunks fk = chunk_payloads rest)
         \<and> (progress fk = Num 100 \<longleftrightarrow> receivedSize fk = length (file_bytes fl))
         \<and> (completed fk \<longleftrightarrow> End (fileId md) \<in> snd ` set (take k evs))
         \<and> (completed fk \<longrightarrow> progress fk = Num 100)"
proof -
  from isolated_stream [OF send iso] nonempty
  obtain cs where cs: "chunk_payloads rest = cs"
    and iso': "map snd (for_transfer (fileId md) evs)
           = Metadata md # map (\<lambda>c. Chunk c 0 0 (fileId md)) cs @ [End (fileId md)]"
    and cat: "concat cs = file_bytes fl"
    and size: "md_size md = length (concat cs)"
    and cne: "cs \<noteq> []"
    and ne: "\<forall>c \<in> set cs. c \<noteq> []"
    by metis
  have pos: "0 < md_size md"
    using size cat nonempty by simp
  from isolated_prefix [OF iso' fresh fj]
  obtain a where a: "1 \<le> a" "a \<le> length cs + 2"
    and a_def: "a = length (for_transfer (fileId md) (take j evs))"
    and pa: "progress fj = (if a = length cs + 2 then Num 100
                            else if a = 1 then Num 0
                            else percent (length (concat (take (a - 1) cs))) (md_size md))"
    by blast
  from isolated_prefix [OF iso' fresh fk]
  obtain b where b: "1 \<le> b" "b \<le> length cs + 2"
    and b_def: "b = length (for_transfer (fileId md) (take k evs))"
    and E: "b = length cs + 2 \<longleftrightarrow> End (fileId md) \<in> snd ` set (take k evs)"
    and ch: "chunks fk = take (b - 1) cs"
    and rb: "receivedSize fk = length (concat (take (b - 1) cs))"
    and cb: "completed fk = (b = length cs + 2)"
    and pb: "progress fk = (if b = length cs + 2 then Num 100
                            else if b = 1 then Num 0
                            else percent (length (concat (take (b - 1) cs))) (md_size md))"
    by blast
  have ab: "a \<le> b"
    unfolding a_def b_def for_transfer_def using jk by (rule filter_take_mono)
  let ?r = "\<lambda>i. length (concat (take (i - 1) cs))"
  have rle: "?r i \<le> md_size md" for i
    using concat_take_le [of "i - 1" cs] size by simp
  have mono: "js_le (progress fj) (progress fk)"
  proof (cases "b = length cs + 2")
    case True
    then show ?thesis
      using pa pb percent_le_100 [OF pos rle [of a]] by simp
  next
    case False
    then have "a \<noteq> length cs + 2"
      using ab b by simp
    then show ?thesis
      using False pa pb a b ab percent_nonneg [OF pos, of "?r b"]
        percent_mono [OF pos concat_take_mono [of "a - 1" "b - 1" cs]]
      by (auto simp: diff_le_mono)
  qed
  have all: "progress fk = Num 100 \<longleftrightarrow> length cs \<le> b - 1"
  proof (cases "b = length cs + 2")
    case True
    then show ?thesis using pb by simp
  next
    case False
    show ?thesis
    proof (cases "b = 1")
      case True
      then show ?thesis
        using pb False cne by (cases cs) auto
    next
      case b1: False
      have p: "progress fk = percent (?r b) (md_size md)"
        using pb False b1 by simp
      show ?thesis
      proof (cases "b - 1 < length cs")
        case True
        then have "?r b < md_size md"
          using concat_take_less [OF ne True] size by simp
        then show ?thesis
          using p True percent_eq_100 [OF pos, of "?r b"] by auto
      next
        case False
        then have "?r b = md_size md"
          using size by simp
        then show ?thesis
          using p False percent_eq_100 [OF pos, of "?r b"] by auto
      qed
    qed
  qed
  have c1: "progress fk = Num 100 \<longleftrightarrow> chunks fk = chunk_payloads rest"
    using all ch cs take_all_iff_chunks [of "b - 1" cs] by simp
  have "length cs \<le> b - 1 \<longleftrightarrow> ?r b = length (concat cs)"
  proof
    assume "length cs \<le> b - 1"
    then show "?r b = length (concat cs)" by simp
  next
    assume e: "?r b = length (concat cs)"
    show "length cs \<le> b - 1"
    proof (rule ccontr)
      assume "\<not> length cs \<le> b - 1"
      then have "b - 1 < length cs" by simp
      from concat_take_less [OF ne this] e show False by simp
    qed
  qed
  then have c2: "progress fk = Num 100 \<longleftrightarrow> receivedSize fk = length (file_bytes fl)"
    using all rb cat by simp
  have c3: "completed fk \<longrightarrow> progress fk = Num 100"
    using cb pb by simp
  show ?thesis
    using mono c1 c2 c3 cb E by simp
qed


lemma sendFile_loop_step:
  "readable start \<Longrightarrow> sendable start \<Longrightarrow>
   sendFile_loop readable sendable fl start =
     RChunk (take CHUNK_SIZE (drop start (file_bytes fl))) None None #
       (if start + length (take CHUNK_SIZE (drop start (file_bytes fl))) < length (file_bytes fl)
        then sendFile_loop readable sendable fl
               (start + length (take CHUNK_SIZE (drop start (file_bytes fl))))
        else [REnd])"
  by (subst sendFile_loop.simps) (simp add: Let_def)

lemma sendFile_loop_chunks:
  assumes "\<forall>n. readable n" and "\<forall>n. sendable n"
  shows "\<exists>cs. sendFile_loop readable sendable fl start = map (\<lambda>c. RChunk c None None) cs @ [REnd]
           \<and> cs \<noteq> []
           \<and> concat cs = drop start (file_bytes fl)
           \<and> (start < length (file_bytes fl) \<longrightarrow> (\<forall>c \<in> set cs. c \<noteq> []))"
  using assms
proof (induction readable sendable fl start rule: sendFile_loop.induct)
  case (1 readable sendable fl start)
  let ?chunk = "take CHUNK_SIZE (drop start (file_bytes fl))"
  let ?offset = "start + length ?chunk"
  have r: "readable start" and s: "sendable start"
    using "1.prems" by simp_all
  show ?case
  proof (cases "?offset < length (file_bytes fl)")
    case True
    have step: "sendFile_loop readable sendable fl start
                  = RChunk ?chunk None None # sendFile_loop readable sendable fl ?offset"
      using sendFile_loop_step [of readable start sendable fl] r s True by (simp only: if_True)
    from "1.IH" [OF _ refl _ refl True "1.prems"] r s
    obtain cs where cs: "sendFile_loop readable sendable fl ?offset
                           = map (\<lambda>c. RChunk c None None) cs @ [REnd]"
      and c1: "concat cs = drop ?offset (file_bytes fl)"
      and c3: "\<forall>c \<in> set cs. c \<noteq> []"
      using True by auto
    have ne: "?chunk \<noteq> []"
      using True by (auto simp: CHUNK_SIZE_def)
    have "sendFile_loop readable sendable fl start
            = map (\<lambda>c. RChunk c None None) (?chunk # cs) @ [REnd]"
      unfolding step cs by simp
    moreover have "concat (?chunk # cs) = drop start (file_bytes fl)"
      using c1 take_drop_next [of CHUNK_SIZE start "file_bytes fl"] by simp
    moreover have "\<forall>c \<in> set (?chunk # cs). c \<noteq> []"
      using c3 ne by simp
    ultimately show ?thesis
      by blast
  next
    case False
    have step: "sendFile_loop readable sendable fl start = [RChunk ?chunk None None, REnd]"
      using sendFile_loop_step [of readable start sendable fl] r s False by (simp only: if_False)
    have "?chunk = drop start (file_bytes fl)"
      using False by (rule take_drop_rest)
    moreover have "start < length (file_bytes fl) \<longrightarrow> ?chunk \<noteq> []"
      by (simp add: CHUNK_SIZE_def)
    moreover have "sendFile_loop readable sendable fl start
                     = map (\<lambda>c. RChunk c None None) [?chunk] @ [REnd]"
      unfolding step by simp
    ultimately show ?thesis
      by (intro exI [of _ "[?chunk]"]) simp
  qed
qed

lemma onData_all_Nil [simp]: "onData_all r [] = r"
  by (simp add: onData_all_def)

lemma onData_all_Cons [simp]: "onData_all r (d # ds) = onData_all (onData d r) ds"
  by (simp add: onData_all_def)

lemma onData_all_append: "onData_all r (ds @ ds') = onData_all (onData_all r ds) ds'"
  by (simp add: onData_all_def)

lemma onData_chunks:
  assumes "fileInfoRef r = Some info"
  shows "fileInfoRef (onData_all r (map (\<lambda>c. RChunk c None None) cs)) = Some info
         \<and> receivedSizeRef (onData_all r (map (\<lambda>c. RChunk c None None) cs))
             = receivedSizeRef r + length (concat cs)
         \<and> receivedChunksRef (onData_all r (map (\<lambda>c. RChunk c None None) cs))
             = receivedChunksRef r @ cs
         \<and> rcv_downloadUrl (onData_all r (map (\<lambda>c. RChunk c None None) cs)) = rcv_downloadUrl r
         \<and> rcv_progress (onData_all r (map (\<lambda>c. RChunk c None None) cs))
             = (if cs = [] then rcv_progress r
                else percent (receivedSizeRef r + length (concat cs)) (info_size info))"
  using assms
proof (induction cs arbitrary: r)
  case Nil
  then show ?case by simp
next
  case (Cons c cs)
  let ?r1 = "onData (RChunk c None None) r"
  have 1: "fileInfoRef ?r1 = Some info"
    and 2: "receivedSizeRef ?r1 = receivedSizeRef r + length c"
    and 3: "receivedChunksRef ?r1 = receivedChunksRef r @ [c]"
    and 4: "rcv_downloadUrl ?r1 = rcv_downloadUrl r"
    and 5: "rcv_progress ?r1 = percent (receivedSizeRef r + length c) (info_size info)"
    using Cons.prems by (simp_all add: onData_def Let_def)
  show ?case
    using Cons.IH [OF 1] by (simp add: 2 3 4 5 add.assoc)
qed

lemma one_to_one_prefix:
  assumes ds: "ds = RMetadata info # map (\<lambda>c. RChunk c None None) cs @ [REnd]"
    and cne: "cs \<noteq> []"
    and l: "1 \<le> l" "l \<le> length ds"
  shows "receivedSizeRef (onData_all r (take l ds)) = length (concat (take (l - 1) cs))"
    and "rcv_progress (onData_all r (take l ds))
           = (if l = 1 then Num 0
              else percent (length (concat (take (l - 1) cs))) (info_size info))"
    and "rcv_downloadUrl (onData_all r (take l ds)) \<noteq> None \<longleftrightarrow> l = length ds"
proof -
  let ?r0 = "onData (RMetadata info) r"
  have r0: "fileInfoRef ?r0 = Some info" "receivedSizeRef ?r0 = 0" "receivedChunksRef ?r0 = []"
    "rcv_downloadUrl ?r0 = None" "rcv_progress ?r0 = Num 0"
    by (simp_all add: onData_def)
  have len: "length ds = length cs + 2"
    by (simp add: ds)
  have mid: "receivedSizeRef (onData_all r (take (Suc m) ds)) = length (concat (take m cs))
      \<and> rcv_progress (onData_all r (take (Suc m) ds))
           = (if m = 0 then Num 0 else percent (length (concat (take m cs))) (info_size info))
      \<and> rcv_downloadUrl (onData_all r (take (Suc m) ds)) = None
      \<and> fileInfoRef (onData_all r (take (Suc m) ds)) = Some info"
    if m: "m \<le> length cs" for m
  proof -
    have "take (Suc m) ds = RMetadata info # map (\<lambda>c. RChunk c None None) (take m cs)"
      using m by (simp add: ds take_map)
    then have "onData_all r (take (Suc m) ds)
                 = onData_all ?r0 (map (\<lambda>c. RChunk c None None) (take m cs))"
      by simp
    then show ?thesis
      using onData_chunks [OF r0(1), of "take m cs"] r0 m by auto
  qed
  consider (mid) m where "l = Suc m" "m \<le> length cs" | (full) "l = length cs + 2"
    using l len by (cases l) (auto simp: le_Suc_eq)
  then have "receivedSizeRef (onData_all r (take l ds)) = length (concat (take (l - 1) cs))
    \<and> rcv_progress (onData_all r (take l ds))
           = (if l = 1 then Num 0
              else percent (length (concat (take (l - 1) cs))) (info_size info))
    \<and> (rcv_downloadUrl (onData_all r (take l ds)) \<noteq> None \<longleftrightarrow> l = length ds)"
  proof cases
    case mid
    then show ?thesis
      using mid(2) [THEN \<open>\<And>m. m \<le> length cs \<Longrightarrow> _\<close>] len by auto
  next
    case full
    have "ds = take (Suc (length cs)) ds @ [REnd]"
      by (simp add: ds)
    then have "onData_all r ds = onData REnd (onData_all r (take (Suc (length cs)) ds))"
      by (metis onData_all_append onData_all_Cons onData_all_Nil)
    moreover note mid [of "length cs"]
    ultimately show ?thesis
      using full len cne by (auto simp: onData_def)
  qed
  then show "receivedSizeRef (onData_all r (take l ds)) = length (concat (take (l - 1) cs))"
    and "rcv_progress (onData_all r (take l ds))
           = (if l = 1 then Num 0
              else percent (length (concat (take (l - 1) cs))) (info_size info))"
    and "rcv_downloadUrl (onData_all r (take l ds)) \<noteq> None \<longleftrightarrow> l = length ds"
    by blast+
qed

lemma one_to_one_progress:
  assumes nonempty: "file_bytes fl \<noteq> []"
    and send: "sendFile conn (\<lambda>_. True) (\<lambda>_. True) fl = Some ds"
    and il: "1 \<le> i" "i \<le> l" "l \<le> length ds"
  shows "js_le (rcv_progress (onData_all r (take i ds))) (rcv_progress (onData_all r (take l ds)))
         \<and> (rcv_progress (onData_all r (take l ds)) = Num 100 \<longleftrightarrow> length ds - 1 \<le> l)
         \<and> (rcv_downloadUrl (onData_all r (take l ds)) \<noteq> None \<longleftrightarrow> l = length ds)"
proof -
  let ?info = "\<lparr>info_name = file_name fl, info_size = length (file_bytes fl),
                info_type = file_type fl\<rparr>"
  have "ds = RMetadata ?info # sendFile_loop (\<lambda>_. True) (\<lambda>_. True) fl 0"
    using send by (auto simp: sendFile_def split: option.splits if_splits)
  with sendFile_loop_chunks [of "\<lambda>_. True" "\<lambda>_. True" fl 0] nonempty
  obtain cs where ds: "ds = RMetadata ?info # map (\<lambda>c. RChunk c None None) cs @ [REnd]"
    and cne: "cs \<noteq> []"
    and cat: "concat cs = file_bytes fl"
    and ne: "\<forall>c \<in> set cs. c \<noteq> []"
    by auto
  have len: "length ds = length cs + 2"
    by (simp add: ds)
  have size: "info_size ?info = length (concat cs)"
    using cat by simp
  have pos: "0 < info_size ?info"
    using nonempty by simp
  have i: "1 \<le> i" "i \<le> length ds" and l: "1 \<le> l" "l \<le> length ds"
    using il by simp_all
  note pi = one_to_one_prefix(2) [OF ds cne i, of r]
  note pl = one_to_one_prefix(2) [OF ds cne l, of r]
  let ?r = "\<lambda>i. length (concat (take (i - 1) cs))"
  have mono: "js_le (rcv_progress (onData_all r (take i ds))) (rcv_progress (onData_all r (take l ds)))"
    unfolding pi pl
    using il percent_nonneg [OF pos, of "?r l"]
      percent_mono [OF pos concat_take_mono [of "i - 1" "l - 1" cs]]
    by (auto simp: diff_le_mono)
  have all: "rcv_progress (onData_all r (take l ds)) = Num 100 \<longleftrightarrow> length ds - 1 \<le> l"
  proof (cases "l = 1")
    case True
    then show ?thesis
      unfolding pl using len cne by (cases cs) auto
  next
    case l1: False
    have p: "rcv_progress (onData_all r (take l ds)) = percent (?r l) (info_size ?info)"
      unfolding pl using l1 by simp
    show ?thesis
    proof (cases "l - 1 < length cs")
      case True
      then have "?r l < info_size ?info"
        using concat_take_less [OF ne True] size by simp
      then show ?thesis
        using p True len percent_eq_100 [OF pos, of "?r l"] by auto
    next
      case False
      then have "?r l = info_size ?info"
        using size by simp
      then show ?thesis
        using p False len l percent_eq_100 [OF pos, of "?r l"] by auto
    qed
  qed
  show ?thesis
    using mono all one_to_one_prefix(3) [OF ds cne l, of r] by simp
qed

text \<open>
  Claim C4, amended, for a non-empty file whose reads all succeed. In the room, with no
  entry for the \<open>fileId\<close> beforehand and with the messages of this one send as the only
  handled messages that carry the \<open>fileId\<close>: the progress after a shorter prefix is at
  most the progress after a longer one; the progress is 100 exactly when every chunk of
  the transfer has been handled, that is when all bytes have arrived, which is before
  \<open>end\<close>; and the transfer is completed exactly when \<open>end\<close> has been handled, still at
  100. In the one-to-one receiver, handling exactly the messages of one \<open>sendFile\<close> over
  a connection that stays open: the progress from the metadata on is non-decreasing, it
  is 100 exactly from the last chunk on, and the download URL is set exactly when
  \<open>end\<close> has been handled.
\<close>

theorem progress_monotone:
  assumes nonempty: "file_bytes fl \<noteq> []"
  shows "(sendSingleFile myPeerId myName connections now (\<lambda>_. True) fl isResend existingFileId
            = Some (Metadata md # rest)
          \<and> map snd (for_transfer (fileId md) evs) = Metadata md # rest
          \<and> map_of (receivedFiles st) (fileId md) = None
          \<and> j \<le> k
          \<and> map_of (receivedFiles (receive_all st (take j evs))) (fileId md) = Some fj
          \<and> map_of (receivedFiles (receive_all st (take k evs))) (fileId md) = Some fk
          \<longrightarrow> js_le (progress fj) (progress fk)
              \<and> (progress fk = Num 100 \<longleftrightarrow> chunks fk = chunk_payloads rest)
              \<and> (progress fk = Num 100 \<longleftrightarrow> receivedSize fk = length (file_bytes fl))
              \<and> (completed fk \<longleftrightarrow> End (fileId md) \<in> snd ` set (take k evs))
              \<and> (completed fk \<longrightarrow> progress fk = Num 100))
         \<and> (sendFile conn (\<lambda>_. True) (\<lambda>_. True) fl = Some ds \<and> 1 \<le> i \<and> i \<le> l \<and> l \<le> length ds
          \<longrightarrow> js_le (rcv_progress (onData_all r (take i ds)))
                     (rcv_progress (onData_all r (take l ds)))
              \<and> (rcv_progress (onData_all r (take l ds)) = Num 100 \<longleftrightarrow> length ds - 1 \<le> l)
              \<and> (rcv_downloadUrl (onData_all r (take l ds)) \<noteq> None \<longleftrightarrow> l = length ds))"
proof (rule conjI)
  show "sendSingleFile myPeerId myName connections now (\<lambda>_. True) fl isResend existingFileId
            = Some (Metadata md # rest)
          \<and> map snd (for_transfer (fileId md) evs) = Metadata md # rest
          \<and> map_of (receivedFiles st) (fileId md) = None
          \<and> j \<le> k
          \<and> map_of (receivedFiles (receive_all st (take j evs))) (fileId md) = Some fj
          \<and> map_of (receivedFiles (receive_all st (take k evs))) (fileId md) = Some fk
          \<longrightarrow> js_le (progress fj) (progress fk)
              \<and> (progress fk = Num 100 \<longleftrightarrow> chunks fk = chunk_payloads rest)
              \<and> (progress fk = Num 100 \<longleftrightarrow> receivedSize fk = length (file_bytes fl))
              \<and> (completed fk \<longleftrightarrow> End (fileId md) \<in> snd ` set (take k evs))
              \<and> (completed fk \<longrightarrow> progress fk = Num 100)"
    by (intro impI, elim conjE, rule room_progress [OF nonempty]; assumption)
  show "sendFile conn (\<lambda>_. True) (\<lambda>_. True) fl = Some ds \<and> 1 \<le> i \<and> i \<le> l \<and> l \<le> length ds
          \<longrightarrow> js_le (rcv_progress (onData_all r (take i ds)))
                     (rcv_progress (onData_all r (take l ds)))
              \<and> (rcv_progress (onData_all r (take l ds)) = Num 100 \<longleftrightarrow> length ds - 1 \<le> l)
              \<and> (rcv_downloadUrl (onData_all r (take l ds)) \<noteq> None \<longleftrightarrow> l = length ds)"
    by (intro impI, elim conjE, rule one_to_one_progress [OF nonempty]; assumption)
qed



section \<open>File transfer: the claims on example transfers\<close>

lemma show_int_1000: "show_int 1000 = ''1000''"
  by code_simp

lemma demo_stream150:
  "readSlice (\<lambda>_. True) demo_file ''b_1000_a.bin'' 0 = demo_rest150"
proof -
  have 1: "readSlice (\<lambda>_. True) demo_file ''b_1000_a.bin'' 0
             = Chunk (replicate 65536 0) 0 0 ''b_1000_a.bin''
               # readSlice (\<lambda>_. True) demo_file ''b_1000_a.bin'' 65536"
    by (subst readSlice_step) (simp_all add: CHUNK_SIZE_def demo_file_def)
  have 2: "readSlice (\<lambda>_. True) demo_file ''b_1000_a.bin'' 65536
             = Chunk (replicate 65536 0) 0 0 ''b_1000_a.bin''
               # readSlice (\<lambda>_. True) demo_file ''b_1000_a.bin'' 131072"
    by (subst readSlice_step) (simp_all add: CHUNK_SIZE_def demo_file_def)
  have 3: "readSlice (\<lambda>_. True) demo_file ''b_1000_a.bin'' 131072
             = [Chunk (replicate 18928 0) 0 0 ''b_1000_a.bin'', End ''b_1000_a.bin'']"
    by (subst readSlice_step) (simp_all add: CHUNK_SIZE_def demo_file_def)
  show ?thesis
    by (simp add: 1 2 3 demo_rest150_def)
qed

lemma demo_send150:
  "sendSingleFile (Some ''b'') ''Bob'' [(''me'', \<lparr>conn_open = True\<rparr>)] 1000 (\<lambda>_. True)
     demo_file False None = Some (Metadata demo_md150 # demo_rest150)"
proof -
  have "file_name demo_file = ''a.bin''"
    and "file_type demo_file = ''application/octet-stream''"
    and "length (file_bytes demo_file) = 150000"
    by (simp_all add: demo_file_def)
  then show ?thesis
    by (simp add: sendSingleFile_def falsy_def Let_def show_int_1000 demo_stream150
        demo_md150_def)
qed

lemma demo_events150_stream:
  "map snd (for_transfer (fileId demo_md150) demo_events150) = Metadata demo_md150 # demo_rest150"
  by (simp add: for_transfer_def demo_events150_def demo_rest150_def demo_md150_def)

lemma demo_fresh150: "map_of (receivedFiles demo_room) (fileId demo_md150) = None"
  by (simp add: demo_room_def)

text \<open>
  C1 (amended) for a file of 150000 zero bytes sent by Bob to the example room, whose
  messages arrive mixed with a \<open>user-joined\<close>, a chunk of another transfer and a
  \<open>user-left\<close>.
\<close>

theorem chunk_reassembly_witness:
  "sendSingleFile (Some ''b'') ''Bob'' [(''me'', \<lparr>conn_open = True\<rparr>)] 1000 (\<lambda>_. True)
     demo_file False None = Some (Metadata demo_md150 # demo_rest150)
   \<and> map snd (for_transfer (fileId demo_md150) demo_events150) = Metadata demo_md150 # demo_rest150
   \<and> map_of (receivedFiles demo_room) (fileId demo_md150) = None
   \<and> length (file_bytes demo_file) = 150000
   \<and> map length (chunk_payloads demo_rest150) = [65536, 65536, 18928]
   \<and> (\<exists>f. map_of (receivedFiles (receive_all demo_room demo_events150)) (fileId demo_md150) = Some f
          \<and> completed f
          \<and> downloadUrl f = Some \<lparr>blob_bytes = concat (chunk_payloads demo_rest150),
                                   blob_type = file_type demo_file\<rparr>
          \<and> chunks f = chunk_payloads demo_rest150
          \<and> receivedSize f = length (file_bytes demo_file))
   \<and> concat (chunk_payloads demo_rest150) = file_bytes demo_file"
proof -
  have L: "length (file_bytes demo_file) = 150000"
    by (simp add: demo_file_def)
  show ?thesis
    using demo_send150 demo_events150_stream demo_fresh150 L
      chunk_reassembly [OF demo_send150 demo_events150_stream demo_fresh150]
    by blast
qed

lemma demo_lookup_recv2:
  "map_of (receivedFiles (receive_all demo_room (take 5 demo_events150))) (fileId demo_md150)
     = Some demo_recv2"
  by (simp add: demo_events150_def demo_room_def demo_recv2_def handleData_def
      new_transfer_def demo_md150_def add_user_def known_def Let_def)

lemma demo_lookup_recv3:
  "map_of (receivedFiles (receive_all demo_room (take 6 demo_events150))) (fileId demo_md150)
     = Some demo_recv3"
  by (simp add: demo_events150_def demo_room_def demo_recv3_def handleData_def
      new_transfer_def demo_md150_def percent_def add_user_def known_def Let_def)

lemma demo_lookup_done150:
  "map_of (receivedFiles (receive_all demo_room (take 7 demo_events150))) (fileId demo_md150)
     = Some demo_done150"
  by (simp add: demo_events150_def demo_room_def demo_done150_def handleData_def
      new_transfer_def demo_md150_def percent_def add_user_def known_def Let_def)

text \<open>C3 (amended) on the 150000-byte transfer, right after its \<open>end\<close> has been handled.\<close>

theorem received_bytes_within_size_witness:
  "sendSingleFile (Some ''b'') ''Bob'' [(''me'', \<lparr>conn_open = True\<rparr>)] 1000 (\<lambda>_. True)
     demo_file False None = Some (Metadata demo_md150 # demo_rest150)
   \<and> map snd (for_transfer (fileId demo_md150) demo_events150) = Metadata demo_md150 # demo_rest150
   \<and> map_of (receivedFiles demo_room) (fileId demo_md150) = None
   \<and> map_of (receivedFiles (receive_all demo_room (take 7 demo_events150))) (fileId demo_md150)
        = Some demo_done150
   \<and> receivedSize demo_done150 \<le> md_size (metadata demo_done150)
   \<and> completed demo_done150
   \<and> receivedSize demo_done150 = md_size (metadata demo_done150)
   \<and> End (fileId demo_md150) \<in> snd ` set (take 7 demo_events150)"
proof -
  have c: "completed demo_done150"
    by (simp add: demo_done150_def)
  show ?thesis
    using demo_send150 demo_events150_stream demo_fresh150 demo_lookup_done150 c
      received_bytes_within_size
        [OF demo_send150 demo_events150_stream demo_fresh150 demo_lookup_done150]
    by blast
qed

lemma demo_sendFile150:
  "sendFile (Some \<lparr>conn_open = True\<rparr>) (\<lambda>_. True) (\<lambda>_. True) demo_file = Some demo_ds150"
proof -
  have 1: "sendFile_loop (\<lambda>_. True) (\<lambda>_. True) demo_file 0
             = RChunk (replicate 65536 0) None None
               # sendFile_loop (\<lambda>_. True) (\<lambda>_. True) demo_file 65536"
    by (subst sendFile_loop_step) (simp_all add: CHUNK_SIZE_def demo_file_def)
  have 2: "sendFile_loop (\<lambda>_. True) (\<lambda>_. True) demo_file 65536
             = RChunk (replicate 65536 0) None None
               # sendFile_loop (\<lambda>_. True) (\<lambda>_. True) demo_file 131072"
    by (subst sendFile_loop_step) (simp_all add: CHUNK_SIZE_def demo_file_def)
  have 3: "sendFile_loop (\<lambda>_. True) (\<lambda>_. True) demo_file 131072
             = [RChunk (replicate 18928 0) None None, REnd]"
    by (subst sendFile_loop_step) (simp_all add: CHUNK_SIZE_def demo_file_def)
  have "file_name demo_file = ''a.bin''"
    and "file_type demo_file = ''application/octet-stream''"
    and "length (file_bytes demo_file) = 150000"
    by (simp_all add: demo_file_def)
  then show ?thesis
    by (simp add: sendFile_def 1 2 3 demo_ds150_def)
qed

text \<open>
  C4 (amended) on the 150000-byte transfer, after the second and after the third chunk:
  in the room and in the one-to-one receiver the third chunk brings the progress to 100
  while the transfer is not completed and no download URL is set.
\<close>

theorem progress_monotone_witness:
  "file_bytes demo_file \<noteq> []
   \<and> sendSingleFile (Some ''b'') ''Bob'' [(''me'', \<lparr>conn_open = True\<rparr>)] 1000 (\<lambda>_. True)
       demo_file False None = Some (Metadata demo_md150 # demo_rest150)
   \<and> map snd (for_transfer (fileId demo_md150) demo_events150) = Metadata demo_md150 # demo_rest150
   \<and> map_of (receivedFiles demo_room) (fileId demo_md150) = None
   \<and> (5::nat) \<le> 6
   \<and> map_of (receivedFiles (receive_all demo_room (take 5 demo_events150))) (fileId demo_md150)
        = Some demo_recv2
   \<and> map_of (receivedFiles (receive_all demo_room (take 6 demo_events150))) (fileId demo_md150)
        = Some demo_recv3
   \<and> js_le (progress demo_recv2) (progress demo_recv3)
   \<and> progress demo_recv3 = Num 100
   \<and> \<not> completed demo_recv3
   \<and> sendFile (Some \<lparr>conn_open = True\<rparr>) (\<lambda>_. True) (\<lambda>_. True) demo_file = Some demo_ds150
   \<and> (1::nat) \<le> 3 \<and> (3::nat) \<le> 4 \<and> 4 \<le> length demo_ds150
   \<and> js_le (rcv_progress (onData_all initial_Receiver (take 3 demo_ds150)))
            (rcv_progress (onData_all initial_Receiver (take 4 demo_ds150)))
   \<and> rcv_progress (onData_all initial_Receiver (take 4 demo_ds150)) = Num 100
   \<and> rcv_downloadUrl (onData_all initial_Receiver (take 4 demo_ds150)) = None"
proof -
  have n: "file_bytes demo_file \<noteq> []"
    by (simp add: demo_file_def)
  have jk: "(5::nat) \<le> 6" and il: "(1::nat) \<le> 3" "(3::nat) \<le> 4"
    by simp_all
  have l: "4 \<le> length demo_ds150" and l': "length demo_ds150 - 1 \<le> 4"
    and l'': "4 \<noteq> length demo_ds150"
    by (simp_all add: demo_ds150_def)
  have p: "progress demo_recv3 = Num 100" and c: "\<not> completed demo_recv3"
    by (simp_all add: demo_recv3_def)
  note T = progress_monotone [OF n, of "Some ''b''" "''Bob''" "[(''me'', \<lparr>conn_open = True\<rparr>)]" 1000
      False None demo_md150 demo_rest150 demo_events150 demo_room 5 6 demo_recv2 demo_recv3
      "Some \<lparr>conn_open = True\<rparr>" demo_ds150 3 4 initial_Receiver]
  note R = T [THEN conjunct1, THEN mp,
      OF conjI [OF demo_send150 conjI [OF demo_events150_stream conjI [OF demo_fresh150
        conjI [OF jk conjI [OF demo_lookup_recv2 demo_lookup_recv3]]]]]]
  note S = T [THEN conjunct2, THEN mp,
      OF conjI [OF demo_sendFile150 conjI [OF il(1) conjI [OF il(2) l]]]]
  have r1: "js_le (progress demo_recv2) (progress demo_recv3)"
    using R by (rule conjunct1)
  have s1: "js_le (rcv_progress (onData_all initial_Receiver (take 3 demo_ds150)))
            (rcv_progress (onData_all initial_Receiver (take 4 demo_ds150)))"
    using S by (rule conjunct1)
  have s2: "rcv_progress (onData_all initial_Receiver (take 4 demo_ds150)) = Num 100"
    using S [THEN conjunct2, THEN conjunct1] l' by (rule iffD2)
  have s3: "rcv_downloadUrl (onData_all initial_Receiver (take 4 demo_ds150)) = None"
    using S [THEN conjunct2, THEN conjunct2] l'' by simp
  show ?thesis
    by (intro conjI n demo_send150 demo_events150_stream demo_fresh150 jk demo_lookup_recv2
        demo_lookup_recv3 r1 p c demo_sendFile150 il l s1 s2 s3)
qed

text \<open>
  Claim C4 as stated fails: in the transfer of a one-byte file the progress is 100 after
  the chunk, before \<open>end\<close> is handled and while the transfer is not completed. The
  one-to-one receiver shows 100 at the same point, with no download URL yet.
\<close>

theorem progress_100_before_end_counterexample:
  "sendSingleFile (Some ''b'') ''Bob'' [(''me'', \<lparr>conn_open = True\<rparr>)] 0 (\<lambda>_. True)
     demo_file1 False (Some ''f1'') = Some (map snd demo_events)
   \<and> map_of (receivedFiles demo_room) ''f1'' = None
   \<and> map_of (receivedFiles (receive_all demo_room (take 2 demo_events))) ''f1''
        = Some \<lparr>metadata = demo_md, progress = Num 100, chunks = [[7]], receivedSize = 1,
                downloadUrl = None, completed = False, toastShown = None, timestamp = 1,
                completedAt = None\<rparr>
   \<and> sendFile (Some \<lparr>conn_open = True\<rparr>) (\<lambda>_. True) (\<lambda>_. True) demo_file1
        = Some [RMetadata \<lparr>info_name = ''a.bin'', info_size = 1,
                             info_type = ''application/octet-stream''\<rparr>,
                RChunk [7] None None, REnd]
   \<and> rcv_progress
        (onData (RChunk [7] None None)
          (onData (RMetadata \<lparr>info_name = ''a.bin'', info_size = 1,
                               info_type = ''application/octet-stream''\<rparr>)
            initial_Receiver)) = Num 100
   \<and> rcv_downloadUrl
        (onData (RChunk [7] None None)
          (onData (RMetadata \<lparr>info_name = ''a.bin'', info_size = 1,
                               info_type = ''application/octet-stream''\<rparr>)
            initial_Receiver)) = None"
proof -
  have f: "file_name demo_file1 = ''a.bin''"
    "file_type demo_file1 = ''application/octet-stream''"
    "length (file_bytes demo_file1) = 1"
    by (simp_all add: demo_file1_def)
  have "readSlice (\<lambda>_. True) demo_file1 ''f1'' 0 = [Chunk [7] 0 0 ''f1'', End ''f1'']"
    by (subst readSlice_step) (simp_all add: CHUNK_SIZE_def demo_file1_def)
  then have 1: "sendSingleFile (Some ''b'') ''Bob'' [(''me'', \<lparr>conn_open = True\<rparr>)] 0 (\<lambda>_. True)
     demo_file1 False (Some ''f1'') = Some (map snd demo_events)"
    using f by (simp add: sendSingleFile_def falsy_def Let_def demo_events_def demo_md_def)
  have 2: "map_of (receivedFiles demo_room) ''f1'' = None"
    by (simp add: demo_room_def)
  have 3: "map_of (receivedFiles (receive_all demo_room (take 2 demo_events))) ''f1''
        = Some \<lparr>metadata = demo_md, progress = Num 100, chunks = [[7]], receivedSize = 1,
                downloadUrl = None, completed = False, toastShown = None, timestamp = 1,
                completedAt = None\<rparr>"
    by (simp add: demo_events_def demo_room_def handleData_def new_transfer_def demo_md_def
        percent_def)
  have "sendFile_loop (\<lambda>_. True) (\<lambda>_. True) demo_file1 0 = [RChunk [7] None None, REnd]"
    by (subst sendFile_loop_step) (simp_all add: CHUNK_SIZE_def demo_file1_def)
  then have 4: "sendFile (Some \<lparr>conn_open = True\<rparr>) (\<lambda>_. True) (\<lambda>_. True) demo_file1
        = Some [RMetadata \<lparr>info_name = ''a.bin'', info_size = 1,
                             info_type = ''application/octet-stream''\<rparr>,
                RChunk [7] None None, REnd]"
    using f by (simp add: sendFile_def)
  have 5: "rcv_progress
        (onData (RChunk [7] None None)
          (onData (RMetadata \<lparr>info_name = ''a.bin'', info_size = 1,
                               info_type = ''application/octet-stream''\<rparr>)
            initial_Receiver)) = Num 100"
    and 6: "rcv_downloadUrl
        (onData (RChunk [7] None None)
          (onData (RMetadata \<lparr>info_name = ''a.bin'', info_size = 1,
                               info_type = ''application/octet-stream''\<rparr>)
            initial_Receiver)) = None"
    by (simp_all add: onData_def initial_Receiver_def percent_def Let_def)
  show ?thesis
    using 1 2 3 4 5 6 by blast
qed

lemma demo_file2_facts:
  "file_name demo_file2 = ''b.bin''"
  "file_type demo_file2 = ''application/octet-stream''"
  "length (file_bytes demo_file2) = 65537"
  by (simp_all add: demo_file2_def)

lemma demo_aborted_send:
  "sendSingleFile (Some ''b'') ''Bob'' [(''me'', \<lparr>conn_open = True\<rparr>)] 1000 (\<lambda>n. n = 0)
     demo_file2 False None = Some (map snd (take 2 demo_events2))"
proof -
  have a1: "readSlice (\<lambda>n. n = 0) demo_file2 ''b_1000_b.bin'' 0
              = Chunk (replicate 65536 0) 0 0 ''b_1000_b.bin''
                # readSlice (\<lambda>n. n = 0) demo_file2 ''b_1000_b.bin'' 65536"
    by (subst readSlice_step) (simp_all add: CHUNK_SIZE_def demo_file2_def)
  have a2: "readSlice (\<lambda>n. n = 0) demo_file2 ''b_1000_b.bin'' 65536 = []"
    by (subst readSlice.simps) simp
  show ?thesis
    by (simp add: sendSingleFile_def falsy_def Let_def show_int_1000 demo_file2_facts a1 a2
        demo_events2_def demo_md2_def)
qed

lemma demo_resend:
  "sendSingleFile (Some ''b'') ''Bob'' [(''me'', \<lparr>conn_open = True\<rparr>)] 2000 (\<lambda>_. True)
     demo_file2 True (Some ''b_1000_b.bin'') = Some (map snd (drop 2 demo_events2))"
proof -
  have b1: "readSlice (\<lambda>_. True) demo_file2 ''b_1000_b.bin'' 0
              = Chunk (replicate 65536 0) 0 0 ''b_1000_b.bin''
                # readSlice (\<lambda>_. True) demo_file2 ''b_1000_b.bin'' 65536"
    by (subst readSlice_step) (simp_all add: CHUNK_SIZE_def demo_file2_def)
  have b2: "readSlice (\<lambda>_. True) demo_file2 ''b_1000_b.bin'' 65536
              = [Chunk [0] 0 0 ''b_1000_b.bin'', End ''b_1000_b.bin'']"
    by (subst readSlice_step) (simp_all add: CHUNK_SIZE_def demo_file2_def)
  show ?thesis
    by (simp add: sendSingleFile_def falsy_def Let_def demo_file2_facts b1 b2
        demo_events2_def demo_md2_def)
qed

text \<open>
  Claim C1 as stated fails. A send of a 65537-byte file stops after the first chunk
  because the second read fails; the file is then resent with the same \<open>fileId\<close> and all
  reads succeed. The receiver keeps the entry of the first attempt, so the sealed
  artifact of the resent file is the first chunk followed by the whole file: 131073
  bytes for a file of 65537.
\<close>

theorem resend_reassembly_counterexample:
  "sendSingleFile (Some ''b'') ''Bob'' [(''me'', \<lparr>conn_open = True\<rparr>)] 1000 (\<lambda>n. n = 0)
     demo_file2 False None = Some (map snd (take 2 demo_events2))
   \<and> sendSingleFile (Some ''b'') ''Bob'' [(''me'', \<lparr>conn_open = True\<rparr>)] 2000 (\<lambda>_. True)
     demo_file2 True (Some ''b_1000_b.bin'') = Some (map snd (drop 2 demo_events2))
   \<and> map_of (receivedFiles demo_room) ''b_1000_b.bin'' = None
   \<and> length (file_bytes demo_file2) = 65537
   \<and> (case map_of (receivedFiles (receive_all demo_room demo_events2)) ''b_1000_b.bin'' of
         None \<Rightarrow> False
       | Some f \<Rightarrow>
           completed f
           \<and> downloadUrl f = Some (new_Blob [replicate 65536 0, replicate 65536 0, [0]]
                                     ''application/octet-stream'')
           \<and> (case downloadUrl f of None \<Rightarrow> False
               | Some blob \<Rightarrow> length (blob_bytes blob) = 131073))"
proof -
  have 3: "map_of (receivedFiles demo_room) ''b_1000_b.bin'' = None"
    by (simp add: demo_room_def)
  have 5: "(case map_of (receivedFiles (receive_all demo_room demo_events2)) ''b_1000_b.bin'' of
         None \<Rightarrow> False
       | Some f \<Rightarrow>
           completed f
           \<and> downloadUrl f = Some (new_Blob [replicate 65536 0, replicate 65536 0, [0]]
                                     ''application/octet-stream'')
           \<and> (case downloadUrl f of None \<Rightarrow> False
               | Some blob \<Rightarrow> length (blob_bytes blob) = 131073))"
    by (simp add: demo_events2_def demo_room_def handleData_def new_transfer_def demo_md2_def)
       (simp add: new_Blob_def)
  show ?thesis
    using demo_aborted_send demo_resend 3 demo_file2_facts(3) 5 by blast
qed

text \<open>
  Claim C3 as stated fails. \<open>handleData\<close> appends whatever chunk arrives for an unsealed
  entry and seals on \<open>end\<close> whatever has arrived: a two-byte chunk for a transfer of size 1
  leaves 2 received bytes, and an \<open>end\<close> right after the metadata seals the transfer
  with 0 bytes. The component's own sender reaches such states too: a send of a
  65537-byte file stops after the first chunk because the second read fails, and the
  file is then resent with the same \<open>fileId\<close>; the receiver keeps the entry of the first
  attempt, so after the first chunk of the resend it holds 131072 bytes for a size of
  65537, and at completion 131073 bytes.
\<close>

theorem received_bytes_counterexample:
  "(case map_of (receivedFiles (receive_all demo_room
            [(1, Metadata demo_md), (2, Chunk [7, 7] 0 0 ''f1'')])) ''f1'' of
      None \<Rightarrow> False
    | Some f \<Rightarrow> \<not> completed f \<and> receivedSize f = 2 \<and> md_size (metadata f) = 1)
   \<and> (case map_of (receivedFiles (receive_all demo_room
            [(1, Metadata demo_md), (2, End ''f1'')])) ''f1'' of
         None \<Rightarrow> False
       | Some f \<Rightarrow> completed f \<and> receivedSize f = 0 \<and> md_size (metadata f) = 1)
   \<and> sendSingleFile (Some ''b'') ''Bob'' [(''me'', \<lparr>conn_open = True\<rparr>)] 1000 (\<lambda>n. n = 0)
     demo_file2 False None = Some (map snd (take 2 demo_events2))
   \<and> sendSingleFile (Some ''b'') ''Bob'' [(''me'', \<lparr>conn_open = True\<rparr>)] 2000 (\<lambda>_. True)
     demo_file2 True (Some ''b_1000_b.bin'') = Some (map snd (drop 2 demo_events2))
   \<and> map_of (receivedFiles demo_room) ''b_1000_b.bin'' = None
   \<and> (case map_of (receivedFiles (receive_all demo_room (take 4 demo_events2))) ''b_1000_b.bin'' of
         None \<Rightarrow> False
       | Some f \<Rightarrow> \<not> completed f \<and> receivedSize f = 131072 \<and> md_size (metadata f) = 65537)
   \<and> (case map_of (receivedFiles (receive_all demo_room demo_events2)) ''b_1000_b.bin'' of
         None \<Rightarrow> False
       | Some f \<Rightarrow> completed f \<and> receivedSize f = 131073 \<and> md_size (metadata f) = 65537)"
proof -
  have d1: "(case map_of (receivedFiles (receive_all demo_room
            [(1, Metadata demo_md), (2, Chunk [7, 7] 0 0 ''f1'')])) ''f1'' of
      None \<Rightarrow> False
    | Some f \<Rightarrow> \<not> completed f \<and> receivedSize f = 2 \<and> md_size (metadata f) = 1)"
    by (simp add: demo_room_def handleData_def new_transfer_def demo_md_def)
  have d2: "(case map_of (receivedFiles (receive_all demo_room
            [(1, Metadata demo_md), (2, End ''f1'')])) ''f1'' of
         None \<Rightarrow> False
       | Some f \<Rightarrow> completed f \<and> receivedSize f = 0 \<and> md_size (metadata f) = 1)"
    by (simp add: demo_room_def handleData_def new_transfer_def demo_md_def)
  have 3: "map_of (receivedFiles demo_room) ''b_1000_b.bin'' = None"
    by (simp add: demo_room_def)
  have 4: "(case map_of (receivedFiles (receive_all demo_room (take 4 demo_events2))) ''b_1000_b.bin'' of
         None \<Rightarrow> False
       | Some f \<Rightarrow> \<not> completed f \<and> receivedSize f = 131072 \<and> md_size (metadata f) = 65537)"
    by (simp add: demo_events2_def demo_room_def handleData_def new_transfer_def demo_md2_def)
  have 5: "(case map_of (receivedFiles (receive_all demo_room demo_events2)) ''b_1000_b.bin'' of
         None \<Rightarrow> False
       | Some f \<Rightarrow> completed f \<and> receivedSize f = 131073 \<and> md_size (metadata f) = 65537)"
    by (simp add: demo_events2_def demo_room_def handleData_def new_transfer_def demo_md2_def)
  show ?thesis
    using d1 d2 demo_aborted_send demo_resend 3 4 5 by blast
qed

end
